theory Spec2Isabelle
  imports Complex_Main
begin

section \<open>Values, tensors and errors\<close>

text \<open>
  The replay buffer of \<^verbatim>\<open>src/models/frames/buffers/replay_buffer.py\<close> stores
  \<^verbatim>\<open>Transition\<close> objects whose payloads are torch tensors. A tensor is modelled by
  what the buffer's code inspects: its shape and the device it lives on. Python values that
  can stand where the code tests \<^verbatim>\<open>isinstance(..., float)\<close> or
  \<^verbatim>\<open>torch.is_tensor(...)\<close> are the constructors of \<open>pyval\<close>; \<open>VNone\<close> stands for
  any object that is neither a number nor a tensor. A Python dictionary with string keys is
  an association list in insertion order. Every exception class the code can raise is a
  constructor of \<open>error\<close>, and a function that can raise returns \<open>error + 'a\<close>.
\<close>

type_synonym device = string

datatype tensor = Tensor (shape: "nat list") (device: device)

datatype pyval = VFloat real | VInt int | VBool bool | VNone | VTensor tensor

datatype error =
  RuntimeError | ValueError | IndexError | AttributeError | KeyError | TypeError

type_synonym pydict = "(string \<times> pyval) list"

fun is_tensor :: "pyval \<Rightarrow> bool" where
  "is_tensor (VTensor t) = True"
| "is_tensor v = False"

fun tensor_to :: "device \<Rightarrow> tensor \<Rightarrow> tensor" where
  "tensor_to dev (Tensor s d) = Tensor s dev"

text \<open>A list comprehension whose body can raise: the first exception wins.\<close>

fun map_err :: "('a \<Rightarrow> error + 'b) \<Rightarrow> 'a list \<Rightarrow> error + 'b list" where
  "map_err f [] = Inr []"
| "map_err f (x # xs) =
     (case f x of
        Inl e \<Rightarrow> Inl e
      | Inr y \<Rightarrow> (case map_err f xs of Inl e \<Rightarrow> Inl e | Inr ys \<Rightarrow> Inr (y # ys)))"

section \<open>Transition\<close>

text \<open>
  \<^verbatim>\<open>Transition.__init__\<close> keeps the five named attributes and every keyword argument.
  \<open>_length\<close> is 5 plus the number of keyword arguments and \<open>_keys\<close> is the five names
  followed by the keyword names, so both are functions of the record. The three main
  attributes are dictionaries as annotated; what their values are is tested by the code,
  so they are arbitrary values here, as is the reward. Keyword arguments hold plain values.
\<close>

record transition =
  state :: pydict
  action :: pydict
  next_state :: pydict
  reward :: pyval
  terminal :: bool
  kwargs :: pydict

definition Transition_len :: "transition \<Rightarrow> nat" where
  "Transition_len t = 5 + length (kwargs t)"

definition Transition_keys :: "transition \<Rightarrow> string list" where
  "Transition_keys t =
     [''state'', ''action'', ''next_state'', ''reward'', ''terminal''] @ map fst (kwargs t)"

definition has_keys :: "transition \<Rightarrow> string list \<Rightarrow> bool" where
  "has_keys t ks = list_all (\<lambda>k. k \<in> set (Transition_keys t)) ks"

text \<open>
  \<^verbatim>\<open>for k, v in d.items(): d[k] = v.to(device)\<close>: entries are migrated in order; a value
  without a \<^verbatim>\<open>to\<close> method raises \<^verbatim>\<open>AttributeError\<close> and leaves the earlier entries
  migrated.
\<close>

fun dict_to :: "device \<Rightarrow> pydict \<Rightarrow> error option \<times> pydict" where
  "dict_to dev [] = (None, [])"
| "dict_to dev ((k, v) # kvs) =
     (case v of
        VTensor t \<Rightarrow>
          (case dict_to dev kvs of (e, kvs') \<Rightarrow> (e, (k, VTensor (tensor_to dev t)) # kvs'))
      | _ \<Rightarrow> (Some AttributeError, (k, v) # kvs))"

definition Transition_to :: "device \<Rightarrow> transition \<Rightarrow> error option \<times> transition" where
  "Transition_to dev t =
     (case dict_to dev (state t) of
        (Some e, s) \<Rightarrow> (Some e, t\<lparr>state := s\<rparr>)
      | (None, s) \<Rightarrow>
     (case dict_to dev (action t) of
        (Some e, a) \<Rightarrow> (Some e, t\<lparr>state := s, action := a\<rparr>)
      | (None, a) \<Rightarrow>
     (case dict_to dev (next_state t) of
        (Some e, n) \<Rightarrow> (Some e, t\<lparr>state := s, action := a, next_state := n\<rparr>)
      | (None, n) \<Rightarrow>
          (None, t\<lparr>state := s, action := a, next_state := n,
                   reward := (case reward t of
                                VTensor r \<Rightarrow> VTensor (tensor_to dev r)
                              | v \<Rightarrow> v)\<rparr>))))"

text \<open>
  \<^verbatim>\<open>Transition._check_input\<close>. The shapes are read only after all values were found
  to be tensors. \<^verbatim>\<open>trans.reward.shape\<close> is evaluated before \<^verbatim>\<open>torch.is_tensor\<close>, so
  a reward that is neither a float nor a tensor raises \<^verbatim>\<open>AttributeError\<close>;
  \<^verbatim>\<open>s[0]\<close> on the shape of a zero-dimensional tensor raises \<^verbatim>\<open>IndexError\<close>.
\<close>

fun shape_of :: "pyval \<Rightarrow> nat list" where
  "shape_of (VTensor t) = shape t"
| "shape_of v = []"

definition tensor_shapes :: "transition \<Rightarrow> nat list list" where
  "tensor_shapes t =
     map (shape_of \<circ> snd) (state t) @ map (shape_of \<circ> snd) (action t)
       @ map (shape_of \<circ> snd) (next_state t)"

definition check_batch :: "nat \<Rightarrow> nat list list \<Rightarrow> error option" where
  "check_batch batch_size shapes =
     (if list_ex (\<lambda>s. s = []) shapes then Some IndexError
      else if \<not> list_all (\<lambda>s. hd s = batch_size) shapes then Some RuntimeError
      else None)"

definition check_input :: "transition \<Rightarrow> error option" where
  "check_input t =
     (if list_ex (\<lambda>kv. \<not> is_tensor (snd kv)) (state t)
         \<or> list_ex (\<lambda>kv. \<not> is_tensor (snd kv)) (action t)
         \<or> list_ex (\<lambda>kv. \<not> is_tensor (snd kv)) (next_state t)
      then Some RuntimeError
      else (case reward t of
              VFloat r \<Rightarrow> check_batch 1 (tensor_shapes t)
            | VTensor r \<Rightarrow>
                if length (shape r) = 2 then check_batch (shape r ! 0) (tensor_shapes t)
                else Some RuntimeError
            | _ \<Rightarrow> Some AttributeError))"

text \<open>
  \<^verbatim>\<open>Transition.__init__\<close>: the attributes are set and \<^verbatim>\<open>_check_input\<close> runs as the
  last statement; an exception there means no object is constructed.
\<close>

definition Transition_init :: "transition \<Rightarrow> error + transition" where
  "Transition_init args =
     (case check_input args of Some e \<Rightarrow> Inl e | None \<Rightarrow> Inr args)"

section \<open>ReplayBuffer\<close>

record replay_buffer =
  buffer_size :: int
  buffer_device :: device
  buffer :: "transition list"
  index :: nat
  main_attrs :: "string set"

definition ReplayBuffer_init :: "int \<Rightarrow> device \<Rightarrow> string set option \<Rightarrow> replay_buffer" where
  "ReplayBuffer_init bsize dev main_attributes =
     \<lparr>buffer_size = bsize, buffer_device = dev, buffer = [], index = 0,
      main_attrs = (case main_attributes of
                      None \<Rightarrow> {''state'', ''action'', ''next_state''}
                    | Some m \<Rightarrow> m)\<rparr>"

definition size_rb :: "replay_buffer \<Rightarrow> nat" where
  "size_rb rb = length (buffer rb)"

definition clear :: "replay_buffer \<Rightarrow> replay_buffer" where
  "clear rb = rb\<lparr>buffer := []\<rparr>"

definition default_required_keys :: "string list" where
  "default_required_keys = [''state'', ''action'', ''next_state'', ''reward'', ''terminal'']"

text \<open>
  \<^verbatim>\<open>ReplayBuffer.append\<close>, from the \<^verbatim>\<open>has_keys\<close> test on. The result is the value
  returned or the exception raised, the buffer afterwards, and the transition object
  afterwards: \<^verbatim>\<open>transition.to(self.buffer_device)\<close> mutates the caller's object in place
  before the length test, so the object is part of the state the call changes. Writing at
  \<^verbatim>\<open>self.index\<close> beyond the end of the list raises \<^verbatim>\<open>IndexError\<close>.
\<close>

definition append_transition ::
  "replay_buffer \<Rightarrow> transition \<Rightarrow> string list \<Rightarrow> (error + nat) \<times> replay_buffer \<times> transition"
where
  "append_transition rb t required_keys =
     (if \<not> has_keys t required_keys then (Inl RuntimeError, rb, t)
      else
        (case Transition_to (buffer_device rb) t of
           (Some e, t') \<Rightarrow> (Inl e, rb, t')
         | (None, t') \<Rightarrow>
             if size_rb rb \<noteq> 0 \<and> Transition_len (buffer rb ! 0) \<noteq> Transition_len t'
             then (Inl ValueError, rb, t')
             else
               (let rb1 =
                      (if int (size_rb rb) > buffer_size rb
                       then rb\<lparr>buffer :=
                                 drop (nat (int (size_rb rb) - buffer_size rb)) (buffer rb)\<rparr>
                       else rb)
                in
                  if int (size_rb rb1) = buffer_size rb1 then
                    (if index rb1 < size_rb rb1
                     then (Inr (index rb1),
                           rb1\<lparr>buffer := (buffer rb1)[index rb1 := t'],
                               index := nat ((int (index rb1) + 1) mod buffer_size rb1)\<rparr>,
                           t')
                     else (Inl IndexError, rb1, t'))
                  else (Inr (length (buffer rb1)), rb1\<lparr>buffer := buffer rb1 @ [t']\<rparr>, t'))))"

text \<open>
  The argument of \<^verbatim>\<open>append\<close> is a \<^verbatim>\<open>Transition\<close> object or a plain dictionary
  that supplies the constructor's arguments. For a dictionary the object is built first
  (and validated); the
  object shares the three inner dictionaries with the caller's dictionary, so their
  migration is visible to the caller, while the migrated reward is rebound on the object
  only.
\<close>

datatype append_arg = ArgTransition transition | ArgDict transition

definition append_rb ::
  "replay_buffer \<Rightarrow> append_arg \<Rightarrow> string list \<Rightarrow> (error + nat) \<times> replay_buffer \<times> append_arg"
where
  "append_rb rb arg required_keys =
     (case arg of
        ArgTransition t \<Rightarrow>
          (case append_transition rb t required_keys of
             (r, rb', t') \<Rightarrow> (r, rb', ArgTransition t'))
      | ArgDict d \<Rightarrow>
          (case Transition_init d of
             Inl e \<Rightarrow> (Inl e, rb, ArgDict d)
           | Inr t \<Rightarrow>
               (case append_transition rb t required_keys of
                  (r, rb', t') \<Rightarrow>
                    (r, rb',
                     ArgDict (d\<lparr>state := state t', action := action t',
                              next_state := next_state t'\<rparr>)))))"

text \<open>
  A producer appending the records of a list one after the other with the default
  required keys; it stops at the first exception. The result is the list of returned
  positions.
\<close>

fun append_all :: "replay_buffer \<Rightarrow> transition list \<Rightarrow> (error + nat list) \<times> replay_buffer" where
  "append_all rb [] = (Inr [], rb)"
| "append_all rb (t # ts) =
     (case append_rb rb (ArgTransition t) default_required_keys of
        (Inl e, rb', a) \<Rightarrow> (Inl e, rb')
      | (Inr p, rb', a) \<Rightarrow>
          (case append_all rb' ts of
             (Inl e, rb'') \<Rightarrow> (Inl e, rb'')
           | (Inr ps, rb'') \<Rightarrow> (Inr (p # ps), rb'')))"

text \<open>The record as it is stored: migrated to the buffer's device.\<close>

definition migrated :: "device \<Rightarrow> transition \<Rightarrow> transition" where
  "migrated dev t = snd (Transition_to dev t)"

section \<open>Sampling\<close>

text \<open>
  \<^verbatim>\<open>Transition.__getitem__\<close> is \<^verbatim>\<open>getattr\<close>: one of the five attributes or a keyword
  argument of the constructor, and \<^verbatim>\<open>AttributeError\<close> for any other name. (The private
  attributes and the methods of the class are not modelled as items.)
\<close>

datatype attr = ADict pydict | AVal pyval

definition getitem :: "transition \<Rightarrow> string \<Rightarrow> error + attr" where
  "getitem t item =
     (if item = ''state'' then Inr (ADict (state t))
      else if item = ''action'' then Inr (ADict (action t))
      else if item = ''next_state'' then Inr (ADict (next_state t))
      else if item = ''reward'' then Inr (AVal (reward t))
      else if item = ''terminal'' then Inr (AVal (VBool (terminal t)))
      else (case map_of (kwargs t) item of
              Some v \<Rightarrow> Inr (AVal v)
            | None \<Rightarrow> Inl AttributeError))"

text \<open>
  The random module is an oracle \<open>rnd\<close>: \<open>rnd i\<close> is the \<open>i\<close>-th raw draw.
  \<^verbatim>\<open>random.randint(0, n - 1)\<close> is a draw reduced modulo \<open>n\<close>, and
  \<^verbatim>\<open>random.sample(pool, k)\<close> draws \<open>k\<close> times without replacement, removing each
  chosen position from the pool. \<^verbatim>\<open>random.sample\<close> raises \<^verbatim>\<open>ValueError\<close> for a
  negative \<open>k\<close> and \<^verbatim>\<open>random.randint(0, -1)\<close> raises \<^verbatim>\<open>ValueError\<close>.
\<close>

fun random_sample :: "(nat \<Rightarrow> nat) \<Rightarrow> 'a list \<Rightarrow> nat \<Rightarrow> 'a list" where
  "random_sample rnd pool 0 = []"
| "random_sample rnd [] (Suc k) = []"
| "random_sample rnd (p # ps) (Suc k) =
     (let j = rnd 0 mod length (p # ps)
      in (p # ps) ! j # random_sample (rnd \<circ> Suc) (take j (p # ps) @ drop (Suc j) (p # ps)) k)"

definition sample_method_random_unique ::
  "(nat \<Rightarrow> nat) \<Rightarrow> transition list \<Rightarrow> int \<Rightarrow> error + (transition list \<times> int)"
where
  "sample_method_random_unique rnd buf batch_size =
     (if int (length buf) < batch_size
      then Inr (random_sample rnd buf (length buf), int (length buf))
      else if batch_size < 0 then Inl ValueError
      else Inr (random_sample rnd buf (nat batch_size), batch_size))"

definition sample_method_random ::
  "(nat \<Rightarrow> nat) \<Rightarrow> transition list \<Rightarrow> int \<Rightarrow> error + (transition list \<times> int)"
where
  "sample_method_random rnd buf batch_size =
     (if 0 < batch_size \<and> buf = [] then Inl ValueError
      else Inr (map (\<lambda>i. buf ! (rnd i mod length buf)) [0 ..< nat batch_size], batch_size))"

definition sample_method_all ::
  "transition list \<Rightarrow> int \<Rightarrow> error + (transition list \<times> int)"
where
  "sample_method_all buf u = Inr (buf, int (length buf))"

subsection \<open>The torch operations the batching code calls\<close>

text \<open>
  \<^verbatim>\<open>torch.cat(ts, dim=0)\<close>: the tensors must have at least one dimension and agree on
  all dimensions but the first; the result's leading dimension is the sum of theirs.
  Tensors of shape \<open>[0]\<close> are skipped (torch's legacy rule for empty tensors).
  \<^verbatim>\<open>t.view(batch_size, -1)\<close> needs a positive \<open>batch_size\<close> that divides the number
  of elements. \<^verbatim>\<open>float(v)\<close> succeeds for numbers and one-element tensors (the number
  itself is not modelled, and numbers are taken to be in the range of a float). \<^verbatim>\<open>torch.tensor(values)\<close> of a list of numbers (or
  one-element tensors) is a one-dimensional tensor with one element per value.
\<close>

definition bind_err :: "error + 'a \<Rightarrow> ('a \<Rightarrow> error + 'b) \<Rightarrow> error + 'b" where
  "bind_err m f = (case m of Inl e \<Rightarrow> Inl e | Inr x \<Rightarrow> f x)"

definition torch_cat :: "tensor list \<Rightarrow> error + tensor" where
  "torch_cat ts =
     (let ts' = filter (\<lambda>t. shape t \<noteq> [0]) ts
      in if ts = [] then Inl RuntimeError
         else if ts' = [] then Inr (Tensor [0] (device (hd ts)))
         else if list_all (\<lambda>t. shape t \<noteq> [] \<and> tl (shape t) = tl (shape (hd ts'))) ts'
         then Inr (Tensor (sum_list (map (hd \<circ> shape) ts') # tl (shape (hd ts')))
                          (device (hd ts')))
         else Inl RuntimeError)"

definition view2 :: "int \<Rightarrow> tensor \<Rightarrow> error + tensor" where
  "view2 batch_size t =
     (if batch_size \<le> 0 then Inl RuntimeError
      else if prod_list (shape t) mod nat batch_size = 0
      then Inr (Tensor [nat batch_size, prod_list (shape t) div nat batch_size] (device t))
      else Inl RuntimeError)"

fun py_float :: "pyval \<Rightarrow> error + unit" where
  "py_float (VFloat r) = Inr ()"
| "py_float (VInt i) = Inr ()"
| "py_float (VBool b) = Inr ()"
| "py_float VNone = Inl TypeError"
| "py_float (VTensor t) = (if prod_list (shape t) = 1 then Inr () else Inl ValueError)"

fun tensor_elem :: "attr \<Rightarrow> error + unit" where
  "tensor_elem (ADict d) = Inl RuntimeError"
| "tensor_elem (AVal VNone) = Inl RuntimeError"
| "tensor_elem (AVal v) = py_float v"

definition torch_tensor :: "device \<Rightarrow> attr list \<Rightarrow> error + tensor" where
  "torch_tensor dev vs =
     bind_err (map_err tensor_elem vs) (\<lambda>us. Inr (Tensor [length us] dev))"

subsection \<open>concatenate\_batch\<close>

text \<open>
  An element of the result tuple: a dictionary of concatenated tensors, a dictionary of
  lists of tensors (\<^verbatim>\<open>concatenate=False\<close>), a tensor, or a plain list of attribute values.
\<close>

datatype batch_item =
    BDict "(string \<times> tensor) list"
  | BDictList "(string \<times> tensor list) list"
  | BTensor tensor
  | BList "attr list"

text \<open>\<^verbatim>\<open>item[k][sub_k].to(device)\<close>\<close>

definition item_sub :: "device \<Rightarrow> string \<Rightarrow> string \<Rightarrow> transition \<Rightarrow> error + tensor" where
  "item_sub dev k sub_k item =
     (case getitem item k of
        Inl e \<Rightarrow> Inl e
      | Inr (ADict d) \<Rightarrow>
          (case map_of d sub_k of
             None \<Rightarrow> Inl KeyError
           | Some (VTensor t) \<Rightarrow> Inr (tensor_to dev t)
           | Some v \<Rightarrow> Inl AttributeError)
      | Inr (AVal (VTensor t)) \<Rightarrow> Inl IndexError
      | Inr (AVal v) \<Rightarrow> Inl TypeError)"

text \<open>The branch \<^verbatim>\<open>k in self.main_attrs\<close>.\<close>

definition concat_main :: "bool \<Rightarrow> device \<Rightarrow> transition list \<Rightarrow> string \<Rightarrow> error + batch_item" where
  "concat_main concatenate dev batch k =
     (case batch of
        [] \<Rightarrow> Inl IndexError
      | b0 # bs \<Rightarrow>
          (case getitem b0 k of
             Inl e \<Rightarrow> Inl e
           | Inr (AVal v) \<Rightarrow> Inl AttributeError
           | Inr (ADict d0) \<Rightarrow>
               if concatenate then
                 bind_err
                   (map_err (\<lambda>sub_k.
                      bind_err (map_err (item_sub dev k sub_k) batch) (\<lambda>ts.
                      bind_err (torch_cat ts) (\<lambda>c. Inr (sub_k, c)))) (map fst d0))
                   (\<lambda>tmp_dict. Inr (BDict tmp_dict))
               else
                 bind_err
                   (map_err (\<lambda>sub_k.
                      bind_err (map_err (item_sub dev k sub_k) batch) (\<lambda>ts. Inr (sub_k, ts)))
                      (map fst d0))
                   (\<lambda>tmp_dict. Inr (BDictList tmp_dict))))"

text \<open>The branch \<^verbatim>\<open>k == "reward"\<close>; the first record decides between the two ways.\<close>

definition reward_to :: "device \<Rightarrow> transition \<Rightarrow> error + tensor" where
  "reward_to dev item =
     (case reward item of VTensor t \<Rightarrow> Inr (tensor_to dev t) | v \<Rightarrow> Inl AttributeError)"

definition float_tensor :: "device \<Rightarrow> pyval list \<Rightarrow> error + tensor" where
  "float_tensor dev vs = bind_err (map_err py_float vs) (\<lambda>us. Inr (Tensor [length us] dev))"

definition concat_reward :: "device \<Rightarrow> transition list \<Rightarrow> int \<Rightarrow> error + batch_item" where
  "concat_reward dev batch batch_size =
     (case batch of
        [] \<Rightarrow> Inl IndexError
      | b0 # bs \<Rightarrow>
          if is_tensor (reward b0) \<and> 0 < length (shape_of (reward b0)) then
            bind_err (map_err (reward_to dev) batch) (\<lambda>ts.
            bind_err (torch_cat ts) (\<lambda>c.
            bind_err (view2 batch_size c) (\<lambda>r. Inr (BTensor r))))
          else
            bind_err (float_tensor dev (map reward batch)) (\<lambda>c.
            bind_err (view2 batch_size c) (\<lambda>r. Inr (BTensor r))))"

text \<open>The branch \<^verbatim>\<open>k == "terminal"\<close>.\<close>

definition concat_terminal :: "device \<Rightarrow> transition list \<Rightarrow> int \<Rightarrow> error + batch_item" where
  "concat_terminal dev batch batch_size =
     bind_err (float_tensor dev (map (\<lambda>item. VBool (terminal item)) batch)) (\<lambda>c.
     bind_err (view2 batch_size c) (\<lambda>r. Inr (BTensor r)))"

text \<open>
  A custom key: a \<open>[batch_size, *]\<close> tensor when the key is named in
  \<^verbatim>\<open>additional_concat_keys\<close>, else the plain list of the records' values.
\<close>

definition concat_custom ::
  "device \<Rightarrow> transition list \<Rightarrow> int \<Rightarrow> string list \<Rightarrow> string \<Rightarrow> error + batch_item"
where
  "concat_custom dev batch batch_size additional_concat_keys k =
     (if k \<in> set additional_concat_keys then
        bind_err (map_err (\<lambda>item. getitem item k) batch) (\<lambda>vs.
        bind_err (torch_tensor dev vs) (\<lambda>c.
        bind_err (view2 batch_size c) (\<lambda>r. Inr (BTensor r))))
      else
        bind_err (map_err (\<lambda>item. getitem item k) batch) (\<lambda>vs. Inr (BList vs)))"

text \<open>The branch \<^verbatim>\<open>k == "*"\<close>: every custom key of the first record not used so far.\<close>

definition concat_star ::
  "device \<Rightarrow> transition list \<Rightarrow> int \<Rightarrow> string list \<Rightarrow> string list \<Rightarrow> error + batch_item list"
where
  "concat_star dev batch batch_size additional_concat_keys used_keys =
     (case batch of
        [] \<Rightarrow> Inl IndexError
      | b0 # bs \<Rightarrow>
          map_err (concat_custom dev batch batch_size additional_concat_keys)
            (filter (\<lambda>remain_k.
                       remain_k \<notin> set [''state'', ''action'', ''next_state'', ''reward'', ''terminal'']
                       \<and> remain_k \<notin> set used_keys)
               (Transition_keys b0)))"

text \<open>
  One pass of the loop over \<^verbatim>\<open>sample_keys\<close>: the elements appended to \<^verbatim>\<open>result\<close> and
  the new value of \<^verbatim>\<open>used_keys\<close>.
\<close>

definition concat_key ::
  "replay_buffer \<Rightarrow> transition list \<Rightarrow> int \<Rightarrow> bool \<Rightarrow> device \<Rightarrow> string list \<Rightarrow> string list
     \<Rightarrow> string \<Rightarrow> error + (batch_item list \<times> string list)"
where
  "concat_key rb batch batch_size concatenate dev additional_concat_keys used_keys k =
     (if k \<in> main_attrs rb then
        bind_err (concat_main concatenate dev batch k) (\<lambda>r. Inr ([r], used_keys @ [k]))
      else if k = ''reward'' then
        bind_err (concat_reward dev batch batch_size) (\<lambda>r. Inr ([r], used_keys @ [k]))
      else if k = ''terminal'' then
        bind_err (concat_terminal dev batch batch_size) (\<lambda>r. Inr ([r], used_keys @ [k]))
      else if k = ''*'' then
        bind_err (concat_star dev batch batch_size additional_concat_keys used_keys)
          (\<lambda>rs. Inr (rs, used_keys))
      else
        bind_err (concat_custom dev batch batch_size additional_concat_keys k)
          (\<lambda>r. Inr ([r], used_keys @ [k])))"

fun concat_loop ::
  "replay_buffer \<Rightarrow> transition list \<Rightarrow> int \<Rightarrow> bool \<Rightarrow> device \<Rightarrow> string list
     \<Rightarrow> string list \<Rightarrow> batch_item list \<Rightarrow> string list \<Rightarrow> error + batch_item list"
where
  "concat_loop rb batch batch_size concatenate dev ack [] result used_keys = Inr result"
| "concat_loop rb batch batch_size concatenate dev ack (k # ks) result used_keys =
     (case concat_key rb batch batch_size concatenate dev ack used_keys k of
        Inl e \<Rightarrow> Inl e
      | Inr (rs, used_keys') \<Rightarrow>
          concat_loop rb batch batch_size concatenate dev ack ks (result @ rs) used_keys')"

definition concatenate_batch ::
  "replay_buffer \<Rightarrow> transition list \<Rightarrow> int \<Rightarrow> bool \<Rightarrow> device \<Rightarrow> string list \<Rightarrow> string list
     \<Rightarrow> error + batch_item list"
where
  "concatenate_batch rb batch batch_size concatenate dev sample_keys additional_concat_keys =
     concat_loop rb batch batch_size concatenate dev additional_concat_keys sample_keys [] []"

subsection \<open>sample\_batch\<close>

text \<open>
  The sample method is the name of one of the three built-in methods (found by
  \<^verbatim>\<open>hasattr\<close>) or a function supplied by the caller. There is no path on which the
  function returns \<^verbatim>\<open>None\<close>: every path ends in the tuple or in an exception.
\<close>

datatype sample_method =
    Named string
  | Custom "transition list \<Rightarrow> int \<Rightarrow> error + (transition list \<times> int)"

definition lookup_sample_method ::
  "(nat \<Rightarrow> nat) \<Rightarrow> sample_method
     \<Rightarrow> error + (transition list \<Rightarrow> int \<Rightarrow> error + (transition list \<times> int))"
where
  "lookup_sample_method rnd sm =
     (case sm of
        Custom f \<Rightarrow> Inr f
      | Named n \<Rightarrow>
          if n = ''random_unique'' then Inr (sample_method_random_unique rnd)
          else if n = ''random'' then Inr (sample_method_random rnd)
          else if n = ''all'' then Inr sample_method_all
          else Inl RuntimeError)"

definition sample_batch ::
  "replay_buffer \<Rightarrow> (nat \<Rightarrow> nat) \<Rightarrow> int \<Rightarrow> bool \<Rightarrow> device option \<Rightarrow> sample_method
     \<Rightarrow> string list option \<Rightarrow> string list option \<Rightarrow> error + (int \<times> batch_item list)"
where
  "sample_batch rb rnd batch_size concatenate dev sm sample_keys additional_concat_keys =
     bind_err (lookup_sample_method rnd sm) (\<lambda>f.
     bind_err (f (buffer rb) batch_size) (\<lambda>(batch, n).
     bind_err (case sample_keys of
                 Some ks \<Rightarrow> Inr ks
               | None \<Rightarrow> (case batch of [] \<Rightarrow> Inl IndexError | b0 # bs \<Rightarrow> Inr (Transition_keys b0)))
       (\<lambda>ks.
     bind_err (concatenate_batch rb batch n concatenate
                 (case dev of None \<Rightarrow> buffer_device rb | Some d \<Rightarrow> d) ks
                 (case additional_concat_keys of None \<Rightarrow> [] | Some a \<Rightarrow> a))
       (\<lambda>res. Inr (n, res)))))"

section \<open>A3C: the switch around the update\<close>

text \<open>
  Modelled from the spec: the class \<^verbatim>\<open>Switch\<close> of \<^verbatim>\<open>machin.utils.helper_classes\<close> is
  not among the sources. The spec describes it as a single boolean flag, off by default
  (synchronisation enabled), with \<^verbatim>\<open>on()\<close> and \<^verbatim>\<open>off()\<close> as idempotent set and clear
  and \<^verbatim>\<open>get()\<close> reading the flag.
\<close>

type_synonym switch = bool

definition Switch_init :: switch where
  "Switch_init = False"

definition Switch_on :: "switch \<Rightarrow> switch" where
  "Switch_on sw = True"

definition Switch_off :: "switch \<Rightarrow> switch" where
  "Switch_off sw = False"

definition Switch_get :: "switch \<Rightarrow> bool" where
  "Switch_get sw = sw"

text \<open>
  The state of an \<^verbatim>\<open>A3C\<close> object that its methods in
  \<^verbatim>\<open>src/machin/frame/algorithms/a3c.py\<close> read or change: the switch
  \<^verbatim>\<open>_disable_sync\<close>, and the calls the object has made so far, in order: a pull from or a
  push to the gradient server of a network, and the forward call of a network
  (\<^verbatim>\<open>safe_call\<close>).

  The gradient servers are not among the sources. A call to a server returns or raises;
  which of the two is given by a parameter \<open>srv\<close>, a function of the calls made before
  and of the call itself. A call that raises has been issued, so it is recorded too.
\<close>

datatype net = Actor | Critic

datatype event = Pull net | Push net | Forward net

type_synonym server = "event list \<Rightarrow> event \<Rightarrow> error option"

record a3c =
  disable_sync :: switch
  events :: "event list"

definition issue :: "server \<Rightarrow> event \<Rightarrow> a3c \<Rightarrow> error option \<times> a3c" where
  "issue srv c s = (srv (events s) c, s\<lparr>events := events s @ [c]\<rparr>)"

text \<open>
  The common body of \<^verbatim>\<open>act\<close>, \<^verbatim>\<open>eval_act\<close> and \<^verbatim>\<open>criticize\<close>: pull when asked to
  and the switch is off, then call the network. A pull that raises ends the method.
\<close>

definition pull_and_call :: "server \<Rightarrow> net \<Rightarrow> bool \<Rightarrow> a3c \<Rightarrow> error option \<times> a3c" where
  "pull_and_call srv n pull s =
     (if pull \<and> \<not> Switch_get (disable_sync s) then
        (case issue srv (Pull n) s of
           (Some e, s') \<Rightarrow> (Some e, s')
         | (None, s') \<Rightarrow> (None, s'\<lparr>events := events s' @ [Forward n]\<rparr>))
      else (None, s\<lparr>events := events s @ [Forward n]\<rparr>))"

definition act :: "server \<Rightarrow> bool \<Rightarrow> a3c \<Rightarrow> error option \<times> a3c" where
  "act srv pull s = pull_and_call srv Actor pull s"

definition eval_act :: "server \<Rightarrow> bool \<Rightarrow> a3c \<Rightarrow> error option \<times> a3c" where
  "eval_act srv pull s = pull_and_call srv Actor pull s"

definition criticize :: "server \<Rightarrow> bool \<Rightarrow> a3c \<Rightarrow> error option \<times> a3c" where
  "criticize srv pull s = pull_and_call srv Critic pull s"

definition manual_sync :: "server \<Rightarrow> a3c \<Rightarrow> error option \<times> a3c" where
  "manual_sync srv s =
     (case issue srv (Pull Actor) s of
        (Some e, s') \<Rightarrow> (Some e, s')
      | (None, s') \<Rightarrow> issue srv (Pull Critic) s')"

text \<open>
  \<^verbatim>\<open>A2C.update\<close>, the body that \<^verbatim>\<open>A3C.update\<close> brackets, is not among the sources.
  It is a parameter: the calls it makes to the overridden \<^verbatim>\<open>act\<close>, \<^verbatim>\<open>eval_act\<close> and
  \<^verbatim>\<open>criticize\<close> with their \<^verbatim>\<open>pull\<close> flags, in order, and whether it then returns or
  raises (for whatever reason). An exception raised inside one of the calls ends the body
  at that call.
\<close>

datatype call = Act bool | EvalAct bool | Criticize bool

fun call_net :: "call \<Rightarrow> net" where
  "call_net (Act pull) = Actor"
| "call_net (EvalAct pull) = Actor"
| "call_net (Criticize pull) = Critic"

fun run_call :: "server \<Rightarrow> call \<Rightarrow> a3c \<Rightarrow> error option \<times> a3c" where
  "run_call srv (Act pull) s = act srv pull s"
| "run_call srv (EvalAct pull) s = eval_act srv pull s"
| "run_call srv (Criticize pull) s = criticize srv pull s"

fun run_calls :: "server \<Rightarrow> call list \<Rightarrow> a3c \<Rightarrow> error option \<times> a3c" where
  "run_calls srv [] s = (None, s)"
| "run_calls srv (c # cs) s =
     (case run_call srv c s of
        (Some e, s') \<Rightarrow> (Some e, s')
      | (None, s') \<Rightarrow> run_calls srv cs s')"

text \<open>
  \<^verbatim>\<open>A3C.update\<close>: switch on, the body, switch off, push the actor, push the critic.
  There is no handler: an exception of the body leaves the method before the switch is
  turned off, and an exception of the actor's push leaves it before the critic's push.
\<close>

definition update ::
  "server \<Rightarrow> call list \<Rightarrow> error option \<Rightarrow> a3c \<Rightarrow> error option \<times> a3c"
where
  "update srv body_calls body_raises s =
     (case run_calls srv body_calls (s\<lparr>disable_sync := Switch_on (disable_sync s)\<rparr>) of
        (Some e, s2) \<Rightarrow> (Some e, s2)
      | (None, s2) \<Rightarrow>
          (case body_raises of
             Some e \<Rightarrow> (Some e, s2)
           | None \<Rightarrow>
               (case issue srv (Push Actor) (s2\<lparr>disable_sync := Switch_off (disable_sync s2)\<rparr>) of
                  (Some e, s4) \<Rightarrow> (Some e, s4)
                | (None, s4) \<Rightarrow> issue srv (Push Critic) s4)))"

text \<open>Two servers for the examples: one whose calls all return, one whose actor push raises.\<close>

definition server_ok :: server where
  "server_ok h c = None"

definition server_actor_push_fails :: server where
  "server_actor_push_fails h c = (if c = Push Actor then Some RuntimeError else None)"

section \<open>Example records and the specification's wording\<close>

text \<open>
  A single-step record as a producer builds it: one observation and one action with
  leading dimension 1, a float reward, tensors on the device \<open>cuda:0\<close>. The reward tells
  the records apart.
\<close>

definition step_record :: "real \<Rightarrow> transition" where
  "step_record r =
     \<lparr>state = [(''state'', VTensor (Tensor [1, 4] ''cuda:0''))],
      action = [(''action'', VTensor (Tensor [1, 1] ''cuda:0''))],
      next_state = [(''state'', VTensor (Tensor [1, 4] ''cuda:0''))],
      reward = VFloat r, terminal = False, kwargs = []\<rparr>"

text \<open>A single-step record with one extra field of the given name.\<close>

definition tagged_record :: "string \<Rightarrow> transition" where
  "tagged_record name = (step_record 0)\<lparr>kwargs := [(name, VFloat 0)]\<rparr>"

text \<open>
  Pre-batched records: two steps per record. The first has a tensor reward of shape
  \<open>[2, 1]\<close>, the second a float reward, the third a tensor reward of shape \<open>[2]\<close>.
\<close>

definition prebatched_record :: transition where
  "prebatched_record =
     \<lparr>state = [(''state'', VTensor (Tensor [2, 4] ''cpu''))],
      action = [(''action'', VTensor (Tensor [2, 1] ''cpu''))],
      next_state = [(''state'', VTensor (Tensor [2, 4] ''cpu''))],
      reward = VTensor (Tensor [2, 1] ''cpu''), terminal = False, kwargs = []\<rparr>"

definition prebatched_float :: transition where
  "prebatched_float = prebatched_record\<lparr>reward := VFloat 1\<rparr>"

definition prebatched_flat :: transition where
  "prebatched_flat = prebatched_record\<lparr>reward := VTensor (Tensor [2] ''cpu'')\<rparr>"

text \<open>
  The shape invariant of a record in the specification's words: every value under
  \<open>state\<close>, \<open>action\<close> and \<open>next_state\<close> is an array, all of them share one leading
  dimension, and the reward is a plain scalar or an array whose leading dimension is that
  shared one.
\<close>

definition spec_shape_invariant :: "transition \<Rightarrow> bool" where
  "spec_shape_invariant t =
     (let vals = map snd (state t @ action t @ next_state t);
          leading = map (hd \<circ> shape_of) vals
      in list_all is_tensor vals
         \<and> list_all (\<lambda>v. shape_of v \<noteq> []) vals
         \<and> list_all (\<lambda>l. l = hd leading) leading
         \<and> (case reward t of
              VFloat r \<Rightarrow> True
            | VInt i \<Rightarrow> True
            | VTensor r \<Rightarrow> shape r \<noteq> [] \<and> list_all (\<lambda>l. l = hd (shape r)) leading
            | _ \<Rightarrow> False))"

text \<open>
  A record of unit size: every value under \<open>state\<close>, \<open>action\<close> and \<open>next_state\<close> is
  a tensor with at least one dimension whose leading dimension is 1. These are the records
  \<^verbatim>\<open>_check_input\<close> accepts with a float reward.
\<close>

definition unit_batch :: "transition \<Rightarrow> bool" where
  "unit_batch t = list_all (\<lambda>s. s \<noteq> [] \<and> hd s = 1) (tensor_shapes t)"

section \<open>Appending: growth and ring eviction\<close>

lemma dict_to_ok:
  "\<not> list_ex (\<lambda>kv. \<not> is_tensor (snd kv)) d \<Longrightarrow> fst (dict_to dev d) = None"
  by (induction d) (auto split: pyval.splits prod.splits)

lemma Transition_to_kwargs: "kwargs (snd (Transition_to dev t)) = kwargs t"
  by (simp add: Transition_to_def split: prod.splits option.splits)

lemma Transition_to_len: "Transition_len (snd (Transition_to dev t)) = Transition_len t"
  by (simp add: Transition_len_def Transition_to_kwargs)

lemma check_input_tensors:
  "check_input t = None \<Longrightarrow>
     \<not> list_ex (\<lambda>kv. \<not> is_tensor (snd kv)) (state t) \<and>
     \<not> list_ex (\<lambda>kv. \<not> is_tensor (snd kv)) (action t) \<and>
     \<not> list_ex (\<lambda>kv. \<not> is_tensor (snd kv)) (next_state t)"
  by (auto simp: check_input_def split: if_splits)

lemma Transition_to_ok:
  assumes "check_input t = None"
  shows "fst (Transition_to dev t) = None"
  using check_input_tensors[OF assms] dict_to_ok[of "state t" dev] dict_to_ok[of "action t" dev]
    dict_to_ok[of "next_state t" dev]
  by (auto simp: Transition_to_def split: prod.splits option.splits)

lemma has_keys_default: "has_keys t default_required_keys"
  by (simp add: has_keys_def default_required_keys_def Transition_keys_def)

lemma append_transition_grow:
  assumes "check_input t = None"
    and "int (length (buffer rb)) < buffer_size rb"
    and "buffer rb = [] \<or> Transition_len (buffer rb ! 0) = Transition_len t"
  shows "append_transition rb t default_required_keys =
           (Inr (length (buffer rb)), rb\<lparr>buffer := buffer rb @ [migrated (buffer_device rb) t]\<rparr>,
            migrated (buffer_device rb) t)"
proof -
  obtain e t' where tt: "Transition_to (buffer_device rb) t = (e, t')"
    by (cases "Transition_to (buffer_device rb) t")
  with Transition_to_ok[OF assms(1), of "buffer_device rb"] have e: "e = None" by simp
  have m: "migrated (buffer_device rb) t = t'" by (simp add: migrated_def tt)
  have l: "Transition_len t' = Transition_len t"
    using Transition_to_len[of "buffer_device rb" t] by (simp add: tt)
  show ?thesis
    using assms(2,3) by (auto simp: append_transition_def has_keys_default tt e m l size_rb_def)
qed

lemma append_transition_full:
  assumes "check_input t = None"
    and "int (length (buffer rb)) = buffer_size rb"
    and "index rb < length (buffer rb)"
    and "Transition_len (buffer rb ! 0) = Transition_len t"
  shows "append_transition rb t default_required_keys =
           (Inr (index rb),
            rb\<lparr>buffer := (buffer rb)[index rb := migrated (buffer_device rb) t],
               index := nat ((int (index rb) + 1) mod buffer_size rb)\<rparr>,
            migrated (buffer_device rb) t)"
proof -
  obtain e t' where tt: "Transition_to (buffer_device rb) t = (e, t')"
    by (cases "Transition_to (buffer_device rb) t")
  with Transition_to_ok[OF assms(1), of "buffer_device rb"] have e: "e = None" by simp
  have m: "migrated (buffer_device rb) t = t'" by (simp add: migrated_def tt)
  have l: "Transition_len t' = Transition_len t"
    using Transition_to_len[of "buffer_device rb" t] by (simp add: tt)
  show ?thesis
    using assms(2,3,4) by (auto simp: append_transition_def has_keys_default tt e m l size_rb_def)
qed

lemma migrated_len: "Transition_len (migrated dev t) = Transition_len t"
  by (simp add: migrated_def Transition_to_len)

lemma append_all_grow:
  assumes "list_all (\<lambda>t. check_input t = None \<and> Transition_len t = L) ts"
    and "list_all (\<lambda>t. Transition_len t = L) (buffer rb)"
    and "int (length (buffer rb) + length ts) \<le> buffer_size rb"
  shows "append_all rb ts =
           (Inr [length (buffer rb) ..< length (buffer rb) + length ts],
            rb\<lparr>buffer := buffer rb @ map (migrated (buffer_device rb)) ts\<rparr>)"
  using assms
proof (induction ts arbitrary: rb)
  case Nil
  then show ?case by simp
next
  case (Cons t ts)
  let ?rb' = "rb\<lparr>buffer := buffer rb @ [migrated (buffer_device rb) t]\<rparr>"
  have ok: "check_input t = None" and len: "Transition_len t = L"
    using Cons.prems(1) by simp_all
  have first: "buffer rb = [] \<or> Transition_len (buffer rb ! 0) = Transition_len t"
    using Cons.prems(2) len by (cases "buffer rb") simp_all
  have step: "append_transition rb t default_required_keys =
      (Inr (length (buffer rb)), ?rb', migrated (buffer_device rb) t)"
    using append_transition_grow[OF ok _ first] Cons.prems(3) by simp
  have rest: "append_all ?rb' ts =
      (Inr [length (buffer ?rb') ..< length (buffer ?rb') + length ts],
       ?rb'\<lparr>buffer := buffer ?rb' @ map (migrated (buffer_device ?rb')) ts\<rparr>)"
    using Cons.prems by (intro Cons.IH) (simp_all add: migrated_len)
  have upt: "[length (buffer rb) ..< length (buffer rb) + length (t # ts)] =
      length (buffer rb) # [length (buffer ?rb') ..< length (buffer ?rb') + length ts]"
    by (simp add: upt_rec)
  show ?case
    unfolding upt by (simp add: append_rb_def step rest)
qed

lemma step_record_ok: "check_input (step_record r) = None"
  by (simp add: check_input_def step_record_def check_batch_def tensor_shapes_def)

lemma step_record_len: "Transition_len (step_record r) = 5"
  by (simp add: Transition_len_def step_record_def)

lemma migrated_step_record:
  "migrated dev (step_record r) =
     \<lparr>state = [(''state'', VTensor (Tensor [1, 4] dev))],
      action = [(''action'', VTensor (Tensor [1, 1] dev))],
      next_state = [(''state'', VTensor (Tensor [1, 4] dev))],
      reward = VFloat r, terminal = False, kwargs = []\<rparr>"
  by (simp add: migrated_def Transition_to_def step_record_def)



lemma append_all_step:
  "append_transition rb t default_required_keys = (Inr p, rb', t') \<Longrightarrow>
   append_all rb (t # ts) =
     (case append_all rb' ts of (Inl e, rb'') \<Rightarrow> (Inl e, rb'') | (Inr ps, rb'') \<Rightarrow> (Inr (p # ps), rb''))"
  by (simp add: append_rb_def)

lemma ring_five_into_three:
  assumes "list_all (\<lambda>t. check_input t = None \<and> Transition_len t = L) [r1, r2, r3, r4, r5]"
  shows "append_all (ReplayBuffer_init 3 dev m) [r1, r2, r3, r4, r5] =
           (Inr [0, 1, 2, 0, 1],
            (ReplayBuffer_init 3 dev m)\<lparr>buffer := [migrated dev r4, migrated dev r5, migrated dev r3],
               index := 2\<rparr>)"
proof -
  let ?rb = "ReplayBuffer_init 3 dev m"
  have dev: "buffer_device ?rb = dev" and bs: "buffer_size ?rb = 3" and b0: "buffer ?rb = []"
    and i0: "index ?rb = 0"
    by (simp_all add: ReplayBuffer_init_def)
  let ?rb3 = "?rb\<lparr>buffer := [migrated dev r1, migrated dev r2, migrated dev r3]\<rparr>"
  let ?rb4 = "?rb\<lparr>buffer := [migrated dev r4, migrated dev r2, migrated dev r3], index := 1\<rparr>"
  let ?rb5 = "?rb\<lparr>buffer := [migrated dev r4, migrated dev r5, migrated dev r3], index := 2\<rparr>"
  have s1: "append_transition ?rb r1 default_required_keys =
      (Inr 0, ?rb\<lparr>buffer := [migrated dev r1]\<rparr>, migrated dev r1)"
    using append_transition_grow[of r1 ?rb] assms by (simp add: dev bs b0)
  have s2: "append_transition (?rb\<lparr>buffer := [migrated dev r1]\<rparr>) r2 default_required_keys =
      (Inr 1, ?rb\<lparr>buffer := [migrated dev r1, migrated dev r2]\<rparr>, migrated dev r2)"
    using append_transition_grow[of r2 "?rb\<lparr>buffer := [migrated dev r1]\<rparr>"] assms
    by (simp add: dev bs migrated_len)
  have s3: "append_transition (?rb\<lparr>buffer := [migrated dev r1, migrated dev r2]\<rparr>) r3
        default_required_keys = (Inr 2, ?rb3, migrated dev r3)"
    using append_transition_grow[of r3 "?rb\<lparr>buffer := [migrated dev r1, migrated dev r2]\<rparr>"] assms
    by (simp add: dev bs migrated_len)
  have s4: "append_transition ?rb3 r4 default_required_keys = (Inr 0, ?rb4, migrated dev r4)"
    using append_transition_full[of r4 ?rb3] assms
    by (simp add: dev bs i0 migrated_len)
  have s5: "append_transition ?rb4 r5 default_required_keys = (Inr 1, ?rb5, migrated dev r5)"
    using append_transition_full[of r5 ?rb4] assms
    by (simp add: dev bs migrated_len)
  show ?thesis
    apply (subst append_all_step[OF s1])
    apply (subst append_all_step[OF s2])
    apply (subst append_all_step[OF s3])
    apply (subst append_all_step[OF s4])
    apply (subst append_all_step[OF s5])
    apply simp
    done
qed

text \<open>
  Claim C1, as the code has it. Five validated records of one field count appended to a
  fresh store of capacity 3: the calls return the positions 0, 1, 2, 0, 1, \<open>size()\<close>
  is 3, and the buffer holds the three most recent records with the fourth in slot 0, the
  fifth in slot 1 and the third in slot 2: the ring overwrites in place and does not keep
  the slots in order of age.
\<close>

theorem ring_eviction_index_order:
  assumes "list_all (\<lambda>t. check_input t = None \<and> Transition_len t = L) [r1, r2, r3, r4, r5]"
  shows "append_all (ReplayBuffer_init 3 dev m) [r1, r2, r3, r4, r5] =
           (Inr [0, 1, 2, 0, 1],
            (ReplayBuffer_init 3 dev m)
              \<lparr>buffer := [migrated dev r4, migrated dev r5, migrated dev r3], index := 2\<rparr>)
         \<and> size_rb (snd (append_all (ReplayBuffer_init 3 dev m) [r1, r2, r3, r4, r5])) = 3"
  using ring_five_into_three[OF assms] by (simp add: size_rb_def)

theorem ring_eviction_index_order_witness:
  "append_all (ReplayBuffer_init 3 ''cpu'' None)
       [step_record 1, step_record 2, step_record 3, step_record 4, step_record 5] =
     (Inr [0, 1, 2, 0, 1],
      (ReplayBuffer_init 3 ''cpu'' None)
        \<lparr>buffer := [migrated ''cpu'' (step_record 4), migrated ''cpu'' (step_record 5),
                    migrated ''cpu'' (step_record 3)], index := 2\<rparr>)
   \<and> size_rb (snd (append_all (ReplayBuffer_init 3 ''cpu'' None)
       [step_record 1, step_record 2, step_record 3, step_record 4, step_record 5])) = 3"
proof -
  have "list_all (\<lambda>t. check_input t = None \<and> Transition_len t = 5)
      [step_record 1, step_record 2, step_record 3, step_record 4, step_record 5]"
    by (simp add: step_record_ok step_record_len)
  then show ?thesis by (rule ring_eviction_index_order)
qed

text \<open>
  The order stated in the claim (third, fourth, fifth record in index order) is not the
  order of the buffer.
\<close>

theorem ring_eviction_counterexample:
  "size_rb (snd (append_all (ReplayBuffer_init 3 ''cpu'' None)
       [step_record 1, step_record 2, step_record 3, step_record 4, step_record 5])) = 3
   \<and> buffer (snd (append_all (ReplayBuffer_init 3 ''cpu'' None)
       [step_record 1, step_record 2, step_record 3, step_record 4, step_record 5]))
     \<noteq> map (migrated ''cpu'') [step_record 3, step_record 4, step_record 5]"
proof -
  have "list_all (\<lambda>t. check_input t = None \<and> Transition_len t = 5)
      [step_record 1, step_record 2, step_record 3, step_record 4, step_record 5]"
    by (simp add: step_record_ok step_record_len)
  from ring_five_into_three[OF this, of "''cpu''" None]
  show ?thesis by (simp add: size_rb_def migrated_step_record del: append_all.simps)
qed

section \<open>Clearing\<close>

lemma clear_size: "size_rb (clear rb) = 0 \<and> index (clear rb) = index rb"
  by (simp add: clear_def size_rb_def)

lemma append_all_snoc_ok:
  "append_all rb ts = (Inr ps, rb') \<Longrightarrow>
   append_transition rb' t default_required_keys = (Inr p, rb'', t') \<Longrightarrow>
   append_all rb (ts @ [t]) = (Inr (ps @ [p]), rb'')"
  by (induction ts arbitrary: rb ps)
     (auto simp: append_rb_def split: prod.splits sum.splits)

lemma four_into_three:
  assumes "list_all (\<lambda>t. check_input t = None \<and> Transition_len t = L) [r1, r2, r3, r4]"
    and "buffer rb = []" and "buffer_size rb = 3" and "index rb < 3"
  shows "append_all rb [r1, r2, r3, r4] =
           (Inr [0, 1, 2, index rb],
            rb\<lparr>buffer := [migrated (buffer_device rb) r1, migrated (buffer_device rb) r2,
                           migrated (buffer_device rb) r3][index rb := migrated (buffer_device rb) r4],
               index := (index rb + 1) mod 3\<rparr>)"
proof -
  let ?d = "buffer_device rb"
  let ?rb3 = "rb\<lparr>buffer := map (migrated ?d) [r1, r2, r3]\<rparr>"
  have three: "append_all rb [r1, r2, r3] = (Inr [0, 1, 2], ?rb3)"
    using append_all_grow[of L "[r1, r2, r3]" rb] assms
    by (simp add: upt_rec del: append_all.simps)
  have s4: "append_transition ?rb3 r4 default_required_keys =
      (Inr (index rb),
       ?rb3\<lparr>buffer := (buffer ?rb3)[index ?rb3 := migrated ?d r4],
            index := nat ((int (index ?rb3) + 1) mod buffer_size ?rb3)\<rparr>,
       migrated ?d r4)"
    using append_transition_full[of r4 ?rb3] assms by (simp add: migrated_len)
  have m: "nat ((int (index rb) + 1) mod 3) = (index rb + 1) mod 3"
    by (simp add: nat_mod_distrib nat_add_distrib)
  from append_all_snoc_ok[OF three s4] show ?thesis
    using assms(3) by (simp add: m del: append_all.simps)
qed

text \<open>
  Claim C4 on the code. \<^verbatim>\<open>clear()\<close> empties the list and leaves \<^verbatim>\<open>index\<close> as it
  was. On a store of capacity 3 that has taken four records (cursor 1) and was then
  cleared, four further appends return the positions 0, 1, 2, 1; on a fresh store they
  return 0, 1, 2, 0. So the cleared store first overwrites its second-oldest record.
\<close>

theorem clear_keeps_cursor:
  "size_rb (clear rb) = 0 \<and> index (clear rb) = index rb
   \<and> fst (append_all (ReplayBuffer_init 3 ''cpu'' None)
            [step_record 5, step_record 6, step_record 7, step_record 8]) = Inr [0, 1, 2, 0]
   \<and> fst (append_all
            (clear (snd (append_all (ReplayBuffer_init 3 ''cpu'' None)
               [step_record 1, step_record 2, step_record 3, step_record 4])))
            [step_record 5, step_record 6, step_record 7, step_record 8]) = Inr [0, 1, 2, 1]"
proof -
  let ?new = "ReplayBuffer_init 3 ''cpu'' None"
  have ok: "list_all (\<lambda>t. check_input t = None \<and> Transition_len t = 5)
      [step_record a, step_record b, step_record c, step_record d]" for a b c d
    by (simp add: step_record_ok step_record_len)
  have new: "buffer ?new = []" "buffer_size ?new = 3" "index ?new < 3" "index ?new = 0"
    by (simp_all add: ReplayBuffer_init_def)
  note fresh = four_into_three[OF ok new(1,2,3)]
  let ?used = "clear (snd (append_all ?new [step_record 1, step_record 2, step_record 3, step_record 4]))"
  have used: "buffer ?used = []" "buffer_size ?used = 3" "index ?used = 1"
    by (simp_all add: fresh new clear_def del: append_all.simps)
  have "index ?used < 3" by (simp only: used)
  note again = four_into_three[OF ok used(1,2) this]
  have a: "fst (append_all (ReplayBuffer_init 3 ''cpu'' None)
      [step_record 5, step_record 6, step_record 7, step_record 8]) = Inr [0, 1, 2, 0]"
    by (simp add: fresh new del: append_all.simps)
  have b: "fst (append_all ?used
      [step_record 5, step_record 6, step_record 7, step_record 8]) = Inr [0, 1, 2, 1]"
    using again[of 5 6 7 8] used(3) by (simp del: append_all.simps)
  show ?thesis
    using a b clear_size[of rb] by blast
qed

section \<open>Appending a record of another schema\<close>

lemma append_transition_mismatch:
  assumes "buffer rb \<noteq> []" and "has_keys t required_keys"
    and "fst (Transition_to (buffer_device rb) t) = None"
    and "Transition_len t \<noteq> Transition_len (buffer rb ! 0)"
  shows "append_transition rb t required_keys =
           (Inl ValueError, rb, migrated (buffer_device rb) t)"
proof -
  obtain e t' where tt: "Transition_to (buffer_device rb) t = (e, t')"
    by (cases "Transition_to (buffer_device rb) t")
  with assms(3) have e: "e = None" by simp
  have l: "Transition_len t' = Transition_len t"
    using Transition_to_len[of "buffer_device rb" t] by (simp add: tt)
  show ?thesis
    using assms(1,2,4) by (auto simp: append_transition_def tt e l size_rb_def migrated_def)
qed

lemma append_transition_mismatch_fails:
  assumes "buffer rb \<noteq> []" and "Transition_len t \<noteq> Transition_len (buffer rb ! 0)"
  shows "\<exists>e. fst (append_transition rb t required_keys) = Inl e"
    and "fst (snd (append_transition rb t required_keys)) = rb"
proof -
  obtain e t' where tt: "Transition_to (buffer_device rb) t = (e, t')"
    by (cases "Transition_to (buffer_device rb) t")
  have l: "Transition_len t' = Transition_len t"
    using Transition_to_len[of "buffer_device rb" t] by (simp add: tt)
  show "\<exists>e. fst (append_transition rb t required_keys) = Inl e"
    using assms by (cases e) (auto simp: append_transition_def tt l size_rb_def)
  show "fst (snd (append_transition rb t required_keys)) = rb"
    using assms by (cases e) (auto simp: append_transition_def tt l size_rb_def)
qed

text \<open>
  Claim C5, as the code has it. \<^verbatim>\<open>append\<close> compares the number of fields of the new
  record with that of the record in slot 0, not the field names. On a non-empty store a
  record with a different field count, passed as an object or as a dictionary, makes the
  call raise and leaves the store (contents, size, cursor) as it was; the exception is
  the \<^verbatim>\<open>ValueError\<close> of the length test when the record has the required keys and
  passes the constructor's validation.
\<close>

theorem append_count_mismatch_rejected:
  assumes "buffer rb \<noteq> []" and "Transition_len t \<noteq> Transition_len (buffer rb ! 0)"
  shows "(\<exists>e. fst (append_rb rb (ArgTransition t) required_keys) = Inl e)
         \<and> fst (snd (append_rb rb (ArgTransition t) required_keys)) = rb
         \<and> size_rb (fst (snd (append_rb rb (ArgTransition t) required_keys))) = size_rb rb
         \<and> (\<exists>e. fst (append_rb rb (ArgDict t) required_keys) = Inl e)
         \<and> fst (snd (append_rb rb (ArgDict t) required_keys)) = rb
         \<and> (has_keys t required_keys \<and> check_input t = None \<longrightarrow>
              fst (append_rb rb (ArgTransition t) required_keys) = Inl ValueError
              \<and> fst (append_rb rb (ArgDict t) required_keys) = Inl ValueError)"
proof -
  have v: "has_keys t required_keys \<and> check_input t = None \<longrightarrow>
      fst (append_transition rb t required_keys) = Inl ValueError"
    using append_transition_mismatch[OF assms(1) _ _ assms(2)] Transition_to_ok[of t]
    by simp
  note f = append_transition_mismatch_fails[OF assms, of required_keys]
  have obj: "(\<exists>e. fst (append_rb rb (ArgTransition t) required_keys) = Inl e)
      \<and> fst (snd (append_rb rb (ArgTransition t) required_keys)) = rb
      \<and> (has_keys t required_keys \<and> check_input t = None \<longrightarrow>
            fst (append_rb rb (ArgTransition t) required_keys) = Inl ValueError)"
    using f v by (auto simp: append_rb_def split: prod.splits)
  have dict: "(\<exists>e. fst (append_rb rb (ArgDict t) required_keys) = Inl e)
      \<and> fst (snd (append_rb rb (ArgDict t) required_keys)) = rb
      \<and> (has_keys t required_keys \<and> check_input t = None \<longrightarrow>
            fst (append_rb rb (ArgDict t) required_keys) = Inl ValueError)"
  proof (cases "check_input t")
    case None
    then have "Transition_init t = Inr t" by (simp add: Transition_init_def)
    then show ?thesis
      using f v by (auto simp: append_rb_def split: prod.splits)
  next
    case (Some e)
    then have "Transition_init t = Inl e" by (simp add: Transition_init_def)
    then show ?thesis
      using Some by (simp add: append_rb_def)
  qed
  from obj dict show ?thesis by simp
qed

lemma tagged_ok: "check_input (tagged_record n) = None"
  by (simp add: check_input_def tagged_record_def step_record_def check_batch_def tensor_shapes_def)

lemma tagged_len: "Transition_len (tagged_record n) = 6"
  by (simp add: Transition_len_def tagged_record_def)

lemma first_append:
  assumes "check_input t = None"
  shows "append_all (ReplayBuffer_init 3 ''cpu'' None) [t] =
     (Inr [0], (ReplayBuffer_init 3 ''cpu'' None)\<lparr>buffer := [migrated ''cpu'' t]\<rparr>)"
  using append_all_grow[of "Transition_len t" "[t]" "ReplayBuffer_init 3 ''cpu'' None"] assms
  by (simp add: ReplayBuffer_init_def del: append_all.simps)

theorem append_count_mismatch_rejected_witness:
  "(\<exists>e. fst (append_rb (snd (append_all (ReplayBuffer_init 3 ''cpu'' None) [step_record 1]))
            (ArgTransition (tagged_record ''value'')) default_required_keys) = Inl e)
   \<and> fst (snd (append_rb (snd (append_all (ReplayBuffer_init 3 ''cpu'' None) [step_record 1]))
            (ArgTransition (tagged_record ''value'')) default_required_keys))
       = snd (append_all (ReplayBuffer_init 3 ''cpu'' None) [step_record 1])
   \<and> fst (append_rb (snd (append_all (ReplayBuffer_init 3 ''cpu'' None) [step_record 1]))
            (ArgTransition (tagged_record ''value'')) default_required_keys) = Inl ValueError"
proof -
  let ?rb = "snd (append_all (ReplayBuffer_init 3 ''cpu'' None) [step_record 1])"
  have b: "buffer ?rb = [migrated ''cpu'' (step_record 1)]"
    by (simp add: first_append[OF step_record_ok] del: append_all.simps)
  have 1: "buffer ?rb \<noteq> []" by (simp only: b) simp
  have 2: "Transition_len (tagged_record ''value'') \<noteq> Transition_len (buffer ?rb ! 0)"
    by (simp only: b) (simp add: tagged_len migrated_len step_record_len)
  from append_count_mismatch_rejected[OF 1 2, of default_required_keys]
  show ?thesis by (simp add: has_keys_default tagged_ok del: append_all.simps)
qed

text \<open>
  A record whose field names differ from those of the stored record but whose field count
  is the same is accepted: the store grows from 1 to 2.
\<close>

theorem field_names_not_compared_counterexample:
  "''value'' \<in> set (Transition_keys (tagged_record ''value''))
   \<and> ''value'' \<notin> set (Transition_keys (tagged_record ''log_prob''))
   \<and> size_rb (snd (append_all (ReplayBuffer_init 3 ''cpu'' None) [tagged_record ''log_prob''])) = 1
   \<and> fst (append_rb (snd (append_all (ReplayBuffer_init 3 ''cpu'' None) [tagged_record ''log_prob'']))
            (ArgTransition (tagged_record ''value'')) default_required_keys) = Inr 1
   \<and> size_rb (fst (snd (append_rb
            (snd (append_all (ReplayBuffer_init 3 ''cpu'' None) [tagged_record ''log_prob'']))
            (ArgTransition (tagged_record ''value'')) default_required_keys))) = 2"
proof -
  let ?rb1 = "(ReplayBuffer_init 3 ''cpu'' None)\<lparr>buffer := [migrated ''cpu'' (tagged_record ''log_prob'')]\<rparr>"
  have k: "''value'' \<in> set (Transition_keys (tagged_record ''value''))"
      "''value'' \<notin> set (Transition_keys (tagged_record ''log_prob''))"
    by (simp_all add: Transition_keys_def tagged_record_def)
  have s: "append_transition ?rb1 (tagged_record ''value'') default_required_keys =
      (Inr 1, ?rb1\<lparr>buffer := buffer ?rb1 @ [migrated ''cpu'' (tagged_record ''value'')]\<rparr>,
       migrated ''cpu'' (tagged_record ''value''))"
    using append_transition_grow[of "tagged_record ''value''" ?rb1]
    by (simp add: tagged_ok tagged_len migrated_len ReplayBuffer_init_def)
  show ?thesis
    using k by (simp add: first_append[OF tagged_ok] append_rb_def s size_rb_def del: append_all.simps)
qed




section \<open>Validation at construction\<close>

lemma list_ex_not_all: "list_ex (\<lambda>x. \<not> P x) xs = (\<not> list_all P xs)"
  by (induction xs) auto

lemma check_batch_None:
  "(check_batch b shapes = None) = (list_all (\<lambda>s. s \<noteq> [] \<and> hd s = b) shapes)"
  by (induction shapes) (auto simp: check_batch_def split: if_splits)

text \<open>
  Claim C6, as the code has it. Construction succeeds exactly when every value under
  \<open>state\<close>, \<open>action\<close> and \<open>next_state\<close> is a tensor with at least one dimension,
  and either the reward is a float and every leading dimension is 1, or the reward is a
  two-dimensional tensor and every leading dimension equals the reward's. In every other
  case the constructor raises and no record exists.
\<close>

theorem Transition_init_accepts_iff:
  "(Transition_init t = Inr t) =
     (list_all (\<lambda>kv. is_tensor (snd kv)) (state t @ action t @ next_state t)
      \<and> (case reward t of
            VFloat r \<Rightarrow> list_all (\<lambda>s. s \<noteq> [] \<and> hd s = 1) (tensor_shapes t)
          | VTensor r \<Rightarrow>
              length (shape r) = 2
              \<and> list_all (\<lambda>s. s \<noteq> [] \<and> hd s = hd (shape r)) (tensor_shapes t)
          | _ \<Rightarrow> False))
   \<and> (Transition_init t \<noteq> Inr t) = (\<exists>e. Transition_init t = Inl e)"
proof -
  have hd0: "length (shape r) = 2 \<Longrightarrow> shape r ! 0 = hd (shape r)" for r :: tensor
    by (cases "shape r") simp_all
  have a: "(check_input t = None) =
     (list_all (\<lambda>kv. is_tensor (snd kv)) (state t @ action t @ next_state t)
      \<and> (case reward t of
            VFloat r \<Rightarrow> list_all (\<lambda>s. s \<noteq> [] \<and> hd s = 1) (tensor_shapes t)
          | VTensor r \<Rightarrow>
              length (shape r) = 2
              \<and> list_all (\<lambda>s. s \<noteq> [] \<and> hd s = hd (shape r)) (tensor_shapes t)
          | _ \<Rightarrow> False))"
    by (cases "reward t")
       (auto simp: check_input_def list_ex_not_all check_batch_None hd0)
  have b: "(Transition_init t = Inr t) = (check_input t = None)"
    by (cases "check_input t") (simp_all add: Transition_init_def)
  have c: "(Transition_init t \<noteq> Inr t) = (\<exists>e. Transition_init t = Inl e)"
    by (cases "check_input t") (simp_all add: Transition_init_def)
  show ?thesis using a b c by simp
qed

text \<open>
  Two records that satisfy the invariant as the specification words it and are rejected:
  arrays of leading dimension 2 with a float reward, and with a one-dimensional reward of
  matching length.
\<close>

theorem Transition_init_counterexample:
  "spec_shape_invariant prebatched_float \<and> Transition_init prebatched_float = Inl RuntimeError
   \<and> spec_shape_invariant prebatched_flat \<and> Transition_init prebatched_flat = Inl RuntimeError"
  by (simp add: spec_shape_invariant_def prebatched_float_def prebatched_flat_def
      prebatched_record_def Transition_init_def check_input_def check_batch_def tensor_shapes_def)

theorem Transition_init_accepts_iff_witness:
  "Transition_init (step_record 1) = Inr (step_record 1)
   \<and> Transition_init prebatched_record = Inr prebatched_record
   \<and> (\<exists>e. Transition_init prebatched_float = Inl e)"
proof -
  have 1: "Transition_init (step_record 1) = Inr (step_record 1)"
    using Transition_init_accepts_iff[of "step_record 1"]
    by (simp add: step_record_def tensor_shapes_def)
  have 2: "Transition_init prebatched_record = Inr prebatched_record"
    using Transition_init_accepts_iff[of prebatched_record]
    by (simp add: prebatched_record_def tensor_shapes_def)
  have 3: "\<exists>e. Transition_init prebatched_float = Inl e"
  proof -
    note h = Transition_init_accepts_iff[of prebatched_float]
    have "Transition_init prebatched_float \<noteq> Inr prebatched_float"
      unfolding conjunct1[OF h]
      by (simp add: prebatched_float_def prebatched_record_def tensor_shapes_def)
    then show ?thesis unfolding conjunct2[OF h] .
  qed
  show ?thesis using 1 2 3 by simp
qed

section \<open>Sampling from an empty store\<close>

text \<open>
  Claim C3 on the code. On an empty store \<^verbatim>\<open>sample_batch\<close> with batch size 5 raises
  for each of the three named methods: \<^verbatim>\<open>ValueError\<close> from
  \<^verbatim>\<open>random.randint(0, -1)\<close> for \<open>random\<close>, and \<^verbatim>\<open>IndexError\<close> from
  \<^verbatim>\<open>batch[0]\<close> for \<open>random_unique\<close> and \<open>all\<close>. The docstring promises
  \<^verbatim>\<open>None\<close> when no batch is sampled.
\<close>

theorem sample_batch_empty_raises:
  "sample_batch (ReplayBuffer_init 3 ''cpu'' None) rnd 5 True None (Named ''random'') None None
     = Inl ValueError
   \<and> sample_batch (ReplayBuffer_init 3 ''cpu'' None) rnd 5 True None (Named ''random_unique'') None None
     = Inl IndexError
   \<and> sample_batch (ReplayBuffer_init 3 ''cpu'' None) rnd 5 True None (Named ''all'') None None
     = Inl IndexError"
  by (simp add: sample_batch_def lookup_sample_method_def sample_method_random_def
      sample_method_random_unique_def sample_method_all_def bind_err_def ReplayBuffer_init_def)

section \<open>Shapes of a concatenated batch\<close>

lemma bind_err_Inr:
  "(bind_err m f = Inr y) = (\<exists>x. m = Inr x \<and> f x = Inr y)"
  by (cases m) (simp_all add: bind_err_def)

lemma map_err_Inr:
  "map_err f xs = Inr ys \<Longrightarrow> list_all2 (\<lambda>x y. f x = Inr y) xs ys"
  by (induction xs arbitrary: ys) (auto split: sum.splits)

lemma map_err_length: "map_err f xs = Inr ys \<Longrightarrow> length ys = length xs"
  by (drule map_err_Inr) (simp add: list_all2_lengthD)

lemma sum_list_filter_zero:
  "sum_list (map (hd \<circ> shape) (filter (\<lambda>t. shape t \<noteq> [0]) ts)) = sum_list (map (hd \<circ> shape) ts)"
  by (induction ts) auto

lemma torch_cat_leading:
  assumes "torch_cat ts = Inr c"
  shows "shape c \<noteq> [] \<and> hd (shape c) = sum_list (map (hd \<circ> shape) ts)"
proof (cases "filter (\<lambda>t. shape t \<noteq> [0]) ts = []")
  case True
  then have "sum_list (map (hd \<circ> shape) ts) = 0"
    using sum_list_filter_zero[of ts] by simp
  with True assms show ?thesis
    by (auto simp: torch_cat_def split: if_splits)
next
  case False
  with assms show ?thesis
    by (auto simp: torch_cat_def Let_def sum_list_filter_zero split: if_splits)
qed

lemma sum_list_ones: "list_all (\<lambda>t. hd (shape t) = 1) ts \<Longrightarrow> sum_list (map (hd \<circ> shape) ts) = length ts"
  by (induction ts) auto

lemma random_sample_subset: "set (random_sample rnd pool k) \<subseteq> set pool"
proof (induction rnd pool k rule: random_sample.induct)
  case (3 rnd p ps k)
  define q where "q = p # ps"
  define j where "j = rnd 0 mod length q"
  define rest where "rest = take j q @ drop (Suc j) q"
  have eq: "random_sample rnd (p # ps) (Suc k) = q ! j # random_sample (rnd \<circ> Suc) rest k"
    by (simp only: random_sample.simps Let_def q_def j_def rest_def)
  have "j < length q" by (simp add: j_def q_def)
  then have mem: "q ! j \<in> set q" by (rule nth_mem)
  have sub: "set rest \<subseteq> set q"
    using set_take_subset[of j q] set_drop_subset[of "Suc j" q] by (auto simp: rest_def)
  have IH: "set (random_sample (rnd \<circ> Suc) rest k) \<subseteq> set rest"
    unfolding rest_def j_def q_def by (rule "3.IH"[OF refl])
  have "set (q ! j # random_sample (rnd \<circ> Suc) rest k) \<subseteq> set q"
    using mem sub IH by auto
  then show ?case
    unfolding eq by (simp only: q_def)
qed simp_all

lemma random_sample_length: "length (random_sample rnd pool k) = min k (length pool)"
proof (induction rnd pool k rule: random_sample.induct)
  case (3 rnd p ps k)
  define q where "q = p # ps"
  define j where "j = rnd 0 mod length q"
  define rest where "rest = take j q @ drop (Suc j) q"
  have eq: "random_sample rnd (p # ps) (Suc k) = q ! j # random_sample (rnd \<circ> Suc) rest k"
    by (simp only: random_sample.simps Let_def q_def j_def rest_def)
  have j: "j < length q" by (simp add: j_def q_def)
  then have len: "length rest = length ps"
    by (auto simp: rest_def q_def)
  have IH: "length (random_sample (rnd \<circ> Suc) rest k) = min k (length rest)"
    unfolding rest_def j_def q_def by (rule "3.IH"[OF refl])
  show ?case
    unfolding eq by (simp add: IH len)
qed simp_all

lemma named_sample_batch:
  assumes "lookup_sample_method rnd (Named m) = Inr f" and "f buf batch_size = Inr (batch, n)"
  shows "set batch \<subseteq> set buf \<and> (batch \<noteq> [] \<longrightarrow> n = int (length batch))"
proof -
  consider (u) "f = sample_method_random_unique rnd" | (r) "f = sample_method_random rnd"
    | (a) "f = sample_method_all"
    using assms(1) by (auto simp: lookup_sample_method_def split: if_splits)
  then show ?thesis
  proof cases
    case u
    with assms(2) show ?thesis
      by (auto simp: sample_method_random_unique_def random_sample_length
          split: if_splits dest: subsetD[OF random_sample_subset])
  next
    case r
    with assms(2) show ?thesis
      by (auto simp: sample_method_random_def split: if_splits)
  next
    case a
    with assms(2) show ?thesis by (auto simp: sample_method_all_def)
  qed
qed

lemma map_err_Inr_set:
  "map_err f xs = Inr ys \<Longrightarrow> y \<in> set ys \<Longrightarrow> \<exists>x\<in>set xs. f x = Inr y"
  by (induction xs arbitrary: ys) (auto split: sum.splits)

lemma shape_tensor_to: "shape (tensor_to dev t) = shape t"
  by (cases t) simp

lemma main_dict_unit:
  assumes "unit_batch item" and "k \<in> {''state'', ''action'', ''next_state''}"
    and "getitem item k = Inr (ADict d)" and "(sub_k, VTensor t) \<in> set d"
  shows "shape t \<noteq> [] \<and> hd (shape t) = 1"
proof -
  have "d = state item \<or> d = action item \<or> d = next_state item"
    using assms(2,3) by (auto simp: getitem_def)
  moreover have "shape t \<in> (shape_of \<circ> snd) ` set d"
    using assms(4) by force
  ultimately have "shape t \<in> set (tensor_shapes item)"
    unfolding tensor_shapes_def by auto
  then show ?thesis
    using assms(1) by (auto simp: unit_batch_def list_all_iff)
qed

lemma item_sub_unit:
  assumes "item_sub dev k sub_k item = Inr t" and "k \<in> {''state'', ''action'', ''next_state''}"
    and "unit_batch item"
  shows "shape t \<noteq> [] \<and> hd (shape t) = 1"
proof -
  from assms(1) obtain d t0 where g: "getitem item k = Inr (ADict d)"
    and m: "map_of d sub_k = Some (VTensor t0)" and t: "t = tensor_to dev t0"
    by (auto simp: item_sub_def split: sum.splits attr.splits option.splits pyval.splits)
  from m have "(sub_k, VTensor t0) \<in> set d" by (rule map_of_SomeD)
  from main_dict_unit[OF assms(3,2) g this] show ?thesis
    by (simp add: t shape_tensor_to)
qed

lemma cat_items_leading:
  assumes "map_err (item_sub dev k sub_k) batch = Inr ts" and "torch_cat ts = Inr c"
    and "k \<in> {''state'', ''action'', ''next_state''}" and "list_all unit_batch batch"
  shows "shape c \<noteq> [] \<and> hd (shape c) = length batch"
proof -
  have "list_all (\<lambda>t. hd (shape t) = 1) ts"
    unfolding list_all_iff
  proof
    fix t assume "t \<in> set ts"
    from map_err_Inr_set[OF assms(1) this] obtain item
      where "item \<in> set batch" and "item_sub dev k sub_k item = Inr t" by blast
    with assms(4) item_sub_unit[OF _ assms(3)] show "hd (shape t) = 1"
      by (auto simp: list_all_iff)
  qed
  then have "sum_list (map (hd \<circ> shape) ts) = length ts" by (rule sum_list_ones)
  with torch_cat_leading[OF assms(2)] map_err_length[OF assms(1)] show ?thesis by simp
qed

lemma concat_main_unit:
  assumes "concat_main True dev batch k = Inr r"
    and "k \<in> {''state'', ''action'', ''next_state''}" and "list_all unit_batch batch"
  shows "\<exists>d. r = BDict d
     \<and> list_all (\<lambda>kv. shape (snd kv) \<noteq> [] \<and> hd (shape (snd kv)) = length batch) d"
proof -
  let ?F = "\<lambda>sub_k. bind_err (map_err (item_sub dev k sub_k) batch) (\<lambda>ts.
                      bind_err (torch_cat ts) (\<lambda>c. Inr (sub_k, c)))"
  from assms(1) obtain b0 bs d0 tmp where "batch = b0 # bs"
    and "getitem b0 k = Inr (ADict d0)"
    and tmp: "map_err ?F (map fst d0) = Inr tmp" and r: "r = BDict tmp"
    by (auto simp: concat_main_def bind_err_Inr split: list.splits sum.splits attr.splits)
  have "list_all (\<lambda>kv. shape (snd kv) \<noteq> [] \<and> hd (shape (snd kv)) = length batch) tmp"
    unfolding list_all_iff
  proof
    fix kv assume "kv \<in> set tmp"
    from map_err_Inr_set[OF tmp this] obtain sub_k where "?F sub_k = Inr kv" by blast
    then obtain ts c where "map_err (item_sub dev k sub_k) batch = Inr ts"
      and "torch_cat ts = Inr c" and "kv = (sub_k, c)"
      by (auto simp: bind_err_Inr)
    with cat_items_leading[OF _ _ assms(2,3)]
    show "shape (snd kv) \<noteq> [] \<and> hd (shape (snd kv)) = length batch" by auto
  qed
  with r show ?thesis by blast
qed

lemma float_tensor_shape:
  "float_tensor dev vs = Inr c \<Longrightarrow> c = Tensor [length vs] dev"
  by (auto simp: float_tensor_def bind_err_Inr dest: map_err_length)

lemma view2_shape:
  "view2 n c = Inr r \<Longrightarrow> 0 < n \<and> (\<exists>w. shape r = [nat n, w]) \<and> device r = device c"
  by (auto simp: view2_def split: if_splits)

lemma view2_flat:
  "view2 (int k) (Tensor [k] dev) = Inr r \<Longrightarrow> r = Tensor [k, 1] dev"
  by (auto simp: view2_def split: if_splits)

lemma concat_terminal_shape:
  assumes "concat_terminal dev batch (int (length batch)) = Inr r"
  shows "r = BTensor (Tensor [length batch, 1] dev)"
proof -
  from assms obtain c r' where c: "float_tensor dev (map (\<lambda>item. VBool (terminal item)) batch) = Inr c"
    and v: "view2 (int (length batch)) c = Inr r'" and r: "r = BTensor r'"
    by (auto simp: concat_terminal_def bind_err_Inr)
  from float_tensor_shape[OF c] have "c = Tensor [length batch] dev" by simp
  with v view2_flat[of "length batch" dev r'] r show ?thesis by simp
qed

lemma concat_reward_shape:
  assumes "concat_reward dev batch (int (length batch)) = Inr r"
  shows "\<exists>c. r = BTensor c \<and> (\<exists>w. shape c = [length batch, w])
           \<and> (\<not> is_tensor (reward (hd batch)) \<longrightarrow> shape c = [length batch, 1])"
proof -
  from assms obtain b0 bs where b: "batch = b0 # bs"
    by (cases batch) (auto simp: concat_reward_def)
  show ?thesis
  proof (cases "is_tensor (reward b0) \<and> 0 < length (shape_of (reward b0))")
    case True
    with assms b obtain c r' where "view2 (int (length batch)) c = Inr r'" and "r = BTensor r'"
      by (auto simp: concat_reward_def bind_err_Inr)
    with view2_shape[of "int (length batch)" c r'] True b show ?thesis by auto
  next
    case False
    with assms b obtain c r' where c: "float_tensor dev (map reward batch) = Inr c"
      and v: "view2 (int (length batch)) c = Inr r'" and r: "r = BTensor r'"
      by (auto simp: concat_reward_def bind_err_Inr)
    from float_tensor_shape[OF c] have "c = Tensor [length batch] dev" by simp
    with v view2_flat[of "length batch" dev r'] r show ?thesis by simp
  qed
qed

lemma concat_loop_parts:
  "concat_loop rb batch n conc dev ack ks res used = Inr out \<Longrightarrow>
   \<exists>parts. out = res @ concat parts
     \<and> list_all2 (\<lambda>k items. \<exists>u u'. concat_key rb batch n conc dev ack u k = Inr (items, u'))
           ks parts"
proof (induction ks arbitrary: res used)
  case Nil
  then show ?case by simp
next
  case (Cons k ks)
  from Cons.prems obtain items used' where
    k: "concat_key rb batch n conc dev ack used k = Inr (items, used')" and
    l: "concat_loop rb batch n conc dev ack ks (res @ items) used' = Inr out"
    by (auto split: sum.splits)
  from Cons.IH[OF l] obtain parts where
    p: "out = (res @ items) @ concat parts"
       "list_all2 (\<lambda>k items. \<exists>u u'. concat_key rb batch n conc dev ack u k = Inr (items, u'))
          ks parts"
    by blast
  have "out = res @ concat (items # parts)" using p(1) by simp
  moreover have "list_all2 (\<lambda>k items. \<exists>u u'. concat_key rb batch n conc dev ack u k = Inr (items, u'))
      (k # ks) (items # parts)"
    using k p(2) by auto
  ultimately show ?case by blast
qed

lemma getitem_ADict:
  "getitem t k = Inr (ADict d) \<Longrightarrow> k \<in> {''state'', ''action'', ''next_state''}"
  by (auto simp: getitem_def split: if_splits option.splits)

lemma concat_main_key:
  "concat_main conc dev batch k = Inr r \<Longrightarrow> k \<in> {''state'', ''action'', ''next_state''}"
  by (auto simp: concat_main_def split: list.splits sum.splits attr.splits dest: getitem_ADict)

lemma concat_key_field:
  assumes "concat_key rb batch (int (length batch)) True dev ack used k = Inr (items, used')"
    and "list_all unit_batch batch"
  shows "(k \<in> main_attrs rb \<longrightarrow>
            (\<exists>d. items = [BDict d]
               \<and> list_all (\<lambda>kv. shape (snd kv) \<noteq> [] \<and> hd (shape (snd kv)) = length batch) d))
       \<and> (k \<notin> main_attrs rb \<and> k = ''reward'' \<longrightarrow>
            (\<exists>c. items = [BTensor c] \<and> (\<exists>w. shape c = [length batch, w])
               \<and> (\<not> is_tensor (reward (hd batch)) \<longrightarrow> shape c = [length batch, 1])))
       \<and> (k \<notin> main_attrs rb \<and> k = ''terminal'' \<longrightarrow>
            (\<exists>c. items = [BTensor c] \<and> shape c = [length batch, 1]))"
proof (intro conjI impI)
  assume m: "k \<in> main_attrs rb"
  with assms(1) obtain r where r: "concat_main True dev batch k = Inr r" and i: "items = [r]"
    by (auto simp: concat_key_def bind_err_Inr)
  from concat_main_unit[OF r concat_main_key[OF r] assms(2)] i
  show "\<exists>d. items = [BDict d]
      \<and> list_all (\<lambda>kv. shape (snd kv) \<noteq> [] \<and> hd (shape (snd kv)) = length batch) d"
    by auto
next
  assume "k \<notin> main_attrs rb \<and> k = ''reward''"
  with assms(1) obtain r where "concat_reward dev batch (int (length batch)) = Inr r"
    and "items = [r]"
    by (auto simp: concat_key_def bind_err_Inr)
  with concat_reward_shape[of dev batch r]
  show "\<exists>c. items = [BTensor c] \<and> (\<exists>w. shape c = [length batch, w])
      \<and> (\<not> is_tensor (reward (hd batch)) \<longrightarrow> shape c = [length batch, 1])"
    by auto
next
  assume "k \<notin> main_attrs rb \<and> k = ''terminal''"
  with assms(1) obtain r where "concat_terminal dev batch (int (length batch)) = Inr r"
    and "items = [r]"
    by (auto simp: concat_key_def bind_err_Inr)
  with concat_terminal_shape[of dev batch r]
  show "\<exists>c. items = [BTensor c] \<and> shape c = [length batch, 1]"
    by auto
qed

lemma sample_batch_Inr:
  assumes "sample_batch rb rnd batch_size conc dev sm sample_keys ack = Inr (n, result)"
  obtains f batch where "lookup_sample_method rnd sm = Inr f"
    and "f (buffer rb) batch_size = Inr (batch, n)"
    and "sample_keys = None \<longrightarrow> batch \<noteq> []"
    and "concatenate_batch rb batch n conc
           (case dev of None \<Rightarrow> buffer_device rb | Some d \<Rightarrow> d)
           (case sample_keys of Some ks \<Rightarrow> ks | None \<Rightarrow> Transition_keys (hd batch))
           (case ack of None \<Rightarrow> [] | Some a \<Rightarrow> a) = Inr result"
  using assms
  by (auto simp: sample_batch_def bind_err_Inr split: option.splits list.splits)

text \<open>
  For records of unit size the batch has the shapes the docstring promises. Whatever the
  named method and the sample keys, the result is built from the batch the method
  selected, and when that batch is not empty every main attribute among the keys yields a dictionary of
  tensors whose leading dimension is the number of sampled records, \<open>reward\<close> yields a
  tensor of shape \<open>[count, *]\<close> (and \<open>[count, 1]\<close> when the first record's reward is
  not a tensor), and \<open>terminal\<close> yields a tensor of shape \<open>[count, 1]\<close>.
\<close>

lemma concatenated_batch_shapes:
  assumes "sample_batch rb rnd batch_size True dev (Named m) sample_keys ack = Inr (n, result)"
    and "list_all unit_batch (buffer rb)"
  shows "\<exists>f batch parts.
           lookup_sample_method rnd (Named m) = Inr f
           \<and> f (buffer rb) batch_size = Inr (batch, n)
           \<and> set batch \<subseteq> set (buffer rb) \<and> result = concat parts
           \<and> (batch \<noteq> [] \<longrightarrow>
                n = int (length batch)
                \<and> list_all2 (\<lambda>k items.
                     (k \<in> main_attrs rb \<longrightarrow>
                        (\<exists>d. items = [BDict d]
                           \<and> list_all (\<lambda>kv. shape (snd kv) \<noteq> []
                                             \<and> hd (shape (snd kv)) = length batch) d))
                   \<and> (k \<notin> main_attrs rb \<and> k = ''reward'' \<longrightarrow>
                        (\<exists>c. items = [BTensor c] \<and> (\<exists>w. shape c = [length batch, w])
                           \<and> (\<not> is_tensor (reward (hd batch)) \<longrightarrow>
                                shape c = [length batch, 1])))
                   \<and> (k \<notin> main_attrs rb \<and> k = ''terminal'' \<longrightarrow>
                        (\<exists>c. items = [BTensor c] \<and> shape c = [length batch, 1])))
                   (case sample_keys of Some ks \<Rightarrow> ks | None \<Rightarrow> Transition_keys (hd batch))
                   parts)"
proof -
  let ?dev = "case dev of None \<Rightarrow> buffer_device rb | Some d \<Rightarrow> d"
  let ?ack = "case ack of None \<Rightarrow> [] | Some a \<Rightarrow> a"
  from assms(1) obtain f batch where f: "lookup_sample_method rnd (Named m) = Inr f"
    and b: "f (buffer rb) batch_size = Inr (batch, n)"
    and c: "concatenate_batch rb batch n True ?dev
           (case sample_keys of Some ks \<Rightarrow> ks | None \<Rightarrow> Transition_keys (hd batch)) ?ack
           = Inr result"
    by (rule sample_batch_Inr)
  let ?keys = "case sample_keys of Some ks \<Rightarrow> ks | None \<Rightarrow> Transition_keys (hd batch)"
  from named_sample_batch[OF f b] have sub: "set batch \<subseteq> set (buffer rb)"
    and n: "batch \<noteq> [] \<longrightarrow> n = int (length batch)" by simp_all
  from sub assms(2) have unit: "list_all unit_batch batch"
    by (auto simp: list_all_iff)
  from c obtain parts where res: "result = concat parts"
    and each: "list_all2 (\<lambda>k items. \<exists>u u'. concat_key rb batch n True ?dev ?ack u k = Inr (items, u'))
        ?keys parts"
    using concat_loop_parts[of rb batch n True ?dev ?ack ?keys "[]" "[]" result]
    by (auto simp: concatenate_batch_def)
  have "list_all2 (\<lambda>k items.
                     (k \<in> main_attrs rb \<longrightarrow>
                        (\<exists>d. items = [BDict d]
                           \<and> list_all (\<lambda>kv. shape (snd kv) \<noteq> []
                                             \<and> hd (shape (snd kv)) = length batch) d))
                   \<and> (k \<notin> main_attrs rb \<and> k = ''reward'' \<longrightarrow>
                        (\<exists>c. items = [BTensor c] \<and> (\<exists>w. shape c = [length batch, w])
                           \<and> (\<not> is_tensor (reward (hd batch)) \<longrightarrow>
                                shape c = [length batch, 1])))
                   \<and> (k \<notin> main_attrs rb \<and> k = ''terminal'' \<longrightarrow>
                        (\<exists>c. items = [BTensor c] \<and> shape c = [length batch, 1])))
                   ?keys parts"
    if ne: "batch \<noteq> []"
  proof -
    from n ne have "n = int (length batch)" by simp
    with each show ?thesis
      by (elim list_all2_mono) (auto dest!: concat_key_field[OF _ unit])
  qed
  with f b sub res n show ?thesis by blast
qed

lemma prebatched_ok: "check_input prebatched_record = None"
  by (simp add: check_input_def prebatched_record_def check_batch_def tensor_shapes_def)

lemma migrated_prebatched: "migrated ''cpu'' prebatched_record = prebatched_record"
  by (simp add: migrated_def Transition_to_def prebatched_record_def)

lemma two_appends:
  assumes "check_input t = None" and "check_input t' = None"
    and "Transition_len t = Transition_len t'"
  shows "append_all (ReplayBuffer_init 3 ''cpu'' None) [t, t'] =
     (Inr [0, 1], (ReplayBuffer_init 3 ''cpu'' None)\<lparr>buffer := [migrated ''cpu'' t, migrated ''cpu'' t']\<rparr>)"
  using append_all_grow[of "Transition_len t" "[t, t']" "ReplayBuffer_init 3 ''cpu'' None"] assms
  by (simp add: ReplayBuffer_init_def upt_rec del: append_all.simps)

text \<open>
  Claim C7 on the code. Two pre-batched records (two steps each, accepted by
  \<^verbatim>\<open>_check_input\<close>) are stored and sampled with the method \<open>all\<close>: the count
  returned is 2, the concatenated sub-arrays of \<open>state\<close>, \<open>action\<close> and
  \<open>next_state\<close> have leading dimension 4, and the reward is reshaped to \<open>[2, 2]\<close>.
\<close>

theorem prebatched_batch_leading_dimension:
  "check_input prebatched_record = None
   \<and> sample_batch
       (snd (append_all (ReplayBuffer_init 3 ''cpu'' None) [prebatched_record, prebatched_record]))
       (\<lambda>i. 0) 2 True None (Named ''all'') None None
     = Inr (2, [BDict [(''state'', Tensor [4, 4] ''cpu'')],
                BDict [(''action'', Tensor [4, 1] ''cpu'')],
                BDict [(''state'', Tensor [4, 4] ''cpu'')],
                BTensor (Tensor [2, 2] ''cpu''),
                BTensor (Tensor [2, 1] ''cpu'')])"
proof -
  have "sample_batch
       ((ReplayBuffer_init 3 ''cpu'' None)\<lparr>buffer := [prebatched_record, prebatched_record]\<rparr>)
       (\<lambda>i. 0) 2 True None (Named ''all'') None None
     = Inr (2, [BDict [(''state'', Tensor [4, 4] ''cpu'')],
                BDict [(''action'', Tensor [4, 1] ''cpu'')],
                BDict [(''state'', Tensor [4, 4] ''cpu'')],
                BTensor (Tensor [2, 2] ''cpu''),
                BTensor (Tensor [2, 1] ''cpu'')])"
    by (simp add: sample_batch_def lookup_sample_method_def sample_method_all_def bind_err_def
      ReplayBuffer_init_def prebatched_record_def Transition_keys_def concatenate_batch_def
      concat_key_def concat_main_def getitem_def item_sub_def torch_cat_def concat_reward_def
      reward_to_def view2_def concat_terminal_def float_tensor_def)
  then show ?thesis
    by (simp add: two_appends[OF prebatched_ok prebatched_ok] migrated_prebatched prebatched_ok
        del: append_all.simps)
qed

lemma unit_step_record: "unit_batch (migrated dev (step_record r))"
  by (simp add: unit_batch_def migrated_step_record tensor_shapes_def)

lemma concatenated_batch_shapes_example:
  "sample_batch
       (snd (append_all (ReplayBuffer_init 3 ''cpu'' None) [step_record 1, step_record 2]))
       (\<lambda>i. 0) 2 True None (Named ''all'') None None
     = Inr (2, [BDict [(''state'', Tensor [2, 4] ''cpu'')],
                BDict [(''action'', Tensor [2, 1] ''cpu'')],
                BDict [(''state'', Tensor [2, 4] ''cpu'')],
                BTensor (Tensor [2, 1] ''cpu''),
                BTensor (Tensor [2, 1] ''cpu'')])
   \<and> list_all unit_batch
       (buffer (snd (append_all (ReplayBuffer_init 3 ''cpu'' None) [step_record 1, step_record 2])))
   \<and> (\<exists>batch parts.
         set batch \<subseteq> set (buffer (snd (append_all (ReplayBuffer_init 3 ''cpu'' None)
                                          [step_record 1, step_record 2])))
         \<and> [BDict [(''state'', Tensor [2, 4] ''cpu'')],
             BDict [(''action'', Tensor [2, 1] ''cpu'')],
             BDict [(''state'', Tensor [2, 4] ''cpu'')],
             BTensor (Tensor [2, 1] ''cpu''),
             BTensor (Tensor [2, 1] ''cpu'')] = concat parts
         \<and> (batch = [] \<or> 2 = int (length batch)))"
proof -
  let ?rb = "snd (append_all (ReplayBuffer_init 3 ''cpu'' None) [step_record 1, step_record 2])"
  let ?res = "[BDict [(''state'', Tensor [2, 4] ''cpu'')],
                BDict [(''action'', Tensor [2, 1] ''cpu'')],
                BDict [(''state'', Tensor [2, 4] ''cpu'')],
                BTensor (Tensor [2, 1] ''cpu''),
                BTensor (Tensor [2, 1] ''cpu'')]"
  have rb: "?rb = (ReplayBuffer_init 3 ''cpu'' None)
      \<lparr>buffer := [migrated ''cpu'' (step_record 1), migrated ''cpu'' (step_record 2)]\<rparr>"
    by (simp add: two_appends[OF step_record_ok step_record_ok] step_record_len
        del: append_all.simps)
  have ev: "sample_batch ?rb (\<lambda>i. 0) 2 True None (Named ''all'') None None = Inr (2, ?res)"
    unfolding rb
    by (simp add: migrated_step_record sample_batch_def lookup_sample_method_def
      sample_method_all_def bind_err_def
      ReplayBuffer_init_def Transition_keys_def concatenate_batch_def
      concat_key_def concat_main_def getitem_def item_sub_def torch_cat_def concat_reward_def
      reward_to_def view2_def concat_terminal_def float_tensor_def)
  have un: "list_all unit_batch (buffer ?rb)"
    unfolding rb by (simp add: unit_step_record)
  from concatenated_batch_shapes[OF ev un] obtain f batch parts where
    "lookup_sample_method (\<lambda>i. 0) (Named ''all'') = Inr f"
    "set batch \<subseteq> set (buffer ?rb)" "?res = concat parts"
    "batch \<noteq> [] \<longrightarrow> 2 = int (length batch)"
    by blast
  then have "\<exists>batch parts. set batch \<subseteq> set (buffer ?rb) \<and> ?res = concat parts
      \<and> (batch = [] \<or> 2 = int (length batch))"
    by blast
  with ev un show ?thesis by blast
qed

section \<open>The switch around the update\<close>

lemma run_calls_closed:
  "Switch_get (disable_sync s) \<Longrightarrow>
   run_calls srv cs s = (None, s\<lparr>events := events s @ map (Forward \<circ> call_net) cs\<rparr>)"
proof (induction cs arbitrary: s)
  case Nil
  then show ?case by simp
next
  case (Cons c cs)
  let ?s' = "s\<lparr>events := events s @ [Forward (call_net c)]\<rparr>"
  have step: "run_call srv c s = (None, ?s')"
    using Cons.prems
    by (cases c) (simp_all add: act_def eval_act_def criticize_def pull_and_call_def)
  have "Switch_get (disable_sync ?s')" using Cons.prems by simp
  from Cons.IH[OF this] show ?case by (simp add: step)
qed

lemma update_body:
  "run_calls srv cs (s\<lparr>disable_sync := Switch_on (disable_sync s)\<rparr>) =
     (None, s\<lparr>disable_sync := Switch_on (disable_sync s),
              events := events s @ map (Forward \<circ> call_net) cs\<rparr>)"
proof -
  have "Switch_get (disable_sync (s\<lparr>disable_sync := Switch_on (disable_sync s)\<rparr>))"
    by (simp add: Switch_on_def Switch_get_def)
  from run_calls_closed[OF this, of srv cs] show ?thesis by simp
qed

lemma update_body_raises:
  "update srv cs (Some e) s =
     (Some e, s\<lparr>disable_sync := Switch_on (disable_sync s),
                events := events s @ map (Forward \<circ> call_net) cs\<rparr>)"
  by (simp add: update_def update_body)

text \<open>
  Claim C8, as the code has it. \<^verbatim>\<open>update\<close> calls \<^verbatim>\<open>on()\<close>, the body and
  \<^verbatim>\<open>off()\<close> in sequence with no handler around the body. When the body raises, the
  exception leaves \<^verbatim>\<open>update\<close> before \<^verbatim>\<open>off()\<close>: the switch stays on and the only
  calls made are the forward calls of the body, so nothing is pushed. When the body
  returns, the switch is off afterwards, whether \<^verbatim>\<open>update\<close> then returns or one of the
  pushes raises.
\<close>

theorem update_gate_after:
  "update srv body_calls (Some e) s =
     (Some e, s\<lparr>disable_sync := Switch_on (disable_sync s),
                events := events s @ map (Forward \<circ> call_net) body_calls\<rparr>)
   \<and> Switch_get (disable_sync (snd (update srv body_calls (Some e) s)))
   \<and> \<not> Switch_get (disable_sync (snd (update srv body_calls None s)))"
proof -
  have a: "update srv body_calls (Some e) s =
     (Some e, s\<lparr>disable_sync := Switch_on (disable_sync s),
                events := events s @ map (Forward \<circ> call_net) body_calls\<rparr>)"
    by (rule update_body_raises)
  have b: "Switch_get (disable_sync (snd (update srv body_calls (Some e) s)))"
    unfolding a by (simp add: Switch_on_def Switch_get_def)
  have c: "\<not> Switch_get (disable_sync (snd (update srv body_calls None s)))"
    by (simp add: update_def update_body issue_def Switch_off_def Switch_get_def
        split: option.splits)
  from a b c show ?thesis by simp
qed

text \<open>
  An update whose body raises after a call to \<^verbatim>\<open>criticize\<close>: the switch is left on
  and nothing is pushed.
\<close>

theorem update_raise_counterexample:
  "update server_ok [Criticize True] (Some RuntimeError) \<lparr>disable_sync = Switch_init, events = []\<rparr>
     = (Some RuntimeError, \<lparr>disable_sync = True, events = [Forward Critic]\<rparr>)
   \<and> Switch_get (disable_sync (snd (update server_ok [Criticize True] (Some RuntimeError)
        \<lparr>disable_sync = Switch_init, events = []\<rparr>)))"
  by (simp add: update_def Switch_on_def Switch_get_def Switch_init_def
      criticize_def pull_and_call_def)

text \<open>
  Claim C9, as the code has it. When the body of \<^verbatim>\<open>update\<close> returns, the calls made
  during the body are the forward calls only: no pull is issued, whatever the \<^verbatim>\<open>pull\<close>
  flags of the body's calls to \<^verbatim>\<open>act\<close>, \<^verbatim>\<open>eval_act\<close> and \<^verbatim>\<open>criticize\<close>. Then the
  switch is turned off and the actor is pushed. If that push raises, \<^verbatim>\<open>update\<close> ends
  with its exception and the critic is not pushed; if it returns, the critic is pushed
  and the result is that push's. The switch is on at every point of the body: had the body
  stopped after any number of its calls, the object would be left with the switch on.
  This holds whatever the switch was before the call.
\<close>

theorem update_completes:
  "update srv body_calls None s =
     (case srv (events s @ map (Forward \<circ> call_net) body_calls) (Push Actor) of
        Some e \<Rightarrow>
          (Some e,
           s\<lparr>disable_sync := Switch_init,
             events := events s @ map (Forward \<circ> call_net) body_calls @ [Push Actor]\<rparr>)
      | None \<Rightarrow>
          (srv (events s @ map (Forward \<circ> call_net) body_calls @ [Push Actor]) (Push Critic),
           s\<lparr>disable_sync := Switch_init,
             events := events s @ map (Forward \<circ> call_net) body_calls
                         @ [Push Actor, Push Critic]\<rparr>))
   \<and> (\<forall>k e. Switch_get (disable_sync (snd (update srv (take k body_calls) (Some e) s))))"
proof -
  have a: "update srv body_calls None s =
     (case srv (events s @ map (Forward \<circ> call_net) body_calls) (Push Actor) of
        Some e \<Rightarrow>
          (Some e,
           s\<lparr>disable_sync := Switch_init,
             events := events s @ map (Forward \<circ> call_net) body_calls @ [Push Actor]\<rparr>)
      | None \<Rightarrow>
          (srv (events s @ map (Forward \<circ> call_net) body_calls @ [Push Actor]) (Push Critic),
           s\<lparr>disable_sync := Switch_init,
             events := events s @ map (Forward \<circ> call_net) body_calls
                         @ [Push Actor, Push Critic]\<rparr>))"
    by (simp add: update_def update_body issue_def Switch_off_def Switch_init_def
        split: option.splits)
  have b: "Switch_get (disable_sync (snd (update srv (take k body_calls) (Some e) s)))" for k e
    unfolding update_body_raises by (simp add: Switch_on_def Switch_get_def)
  from a b show ?thesis by blast
qed

text \<open>
  The body returns and the actor's push raises: the switch is off, the actor's push is the
  last call made, and the critic is never pushed.
\<close>

theorem update_push_counterexample:
  "update server_actor_push_fails [Act True, Criticize True] None
       \<lparr>disable_sync = Switch_init, events = []\<rparr>
     = (Some RuntimeError,
        \<lparr>disable_sync = False, events = [Forward Actor, Forward Critic, Push Actor]\<rparr>)
   \<and> Push Critic \<notin> set (events (snd (update server_actor_push_fails [Act True, Criticize True] None
       \<lparr>disable_sync = Switch_init, events = []\<rparr>)))"
  by (simp add: update_def Switch_on_def Switch_off_def Switch_get_def Switch_init_def
      act_def criticize_def pull_and_call_def issue_def server_actor_push_fails_def)

text \<open>
  With a server whose calls return: the body's three calls ask for a pull and none is
  issued inside \<^verbatim>\<open>update\<close>, the two pushes follow; the same three calls outside
  \<^verbatim>\<open>update\<close>, with the switch off, pull each time.
\<close>

theorem update_completes_witness:
  "update server_ok [Act True, EvalAct True, Criticize True] None
       \<lparr>disable_sync = Switch_init, events = []\<rparr>
     = (None, \<lparr>disable_sync = False,
               events = [Forward Actor, Forward Actor, Forward Critic, Push Actor, Push Critic]\<rparr>)
   \<and> Switch_get (disable_sync (snd (update server_ok (take 2 [Act True, EvalAct True, Criticize True])
        (Some RuntimeError) \<lparr>disable_sync = Switch_init, events = []\<rparr>)))
   \<and> events (snd (run_calls server_ok [Act True, EvalAct True, Criticize True]
        \<lparr>disable_sync = Switch_init, events = []\<rparr>))
     = [Pull Actor, Forward Actor, Pull Actor, Forward Actor, Pull Critic, Forward Critic]"
proof -
  let ?s = "\<lparr>disable_sync = Switch_init, events = []\<rparr>"
  let ?body = "[Act True, EvalAct True, Criticize True]"
  note u = update_completes[of server_ok ?body ?s]
  from conjunct1[OF u] have a: "update server_ok ?body None ?s =
      (None, \<lparr>disable_sync = False,
               events = [Forward Actor, Forward Actor, Forward Critic, Push Actor, Push Critic]\<rparr>)"
    by (simp add: server_ok_def Switch_init_def)
  from conjunct2[OF u] have b: "Switch_get (disable_sync (snd (update server_ok (take 2 ?body)
        (Some RuntimeError) ?s)))"
    by blast
  have c: "events (snd (run_calls server_ok ?body ?s))
     = [Pull Actor, Forward Actor, Pull Actor, Forward Actor, Pull Critic, Forward Critic]"
    by (simp add: act_def eval_act_def criticize_def pull_and_call_def issue_def
        server_ok_def Switch_init_def Switch_get_def)
  from a b c show ?thesis by simp
qed

end
